theory Spec2Isabelle
  imports Complex_Main
begin

section \<open>Python string primitives used by the XVG reader\<close>

text \<open>
  A Python \<^verbatim>\<open>str\<close> is a sequence of code points; a \<^typ>\<open>string\<close> here is a
  list of \<^typ>\<open>char\<close>, each read as one code point below 256. On that range
  \<^verbatim>\<open>str.isspace\<close> holds for the code points 9-13, 28-32, 133 and 160.
\<close>

definition py_isspace :: "char \<Rightarrow> bool" where
  "py_isspace c =
     (c \<in> set [CHR 0x09, CHR 0x0A, CHR 0x0B, CHR 0x0C, CHR 0x0D, CHR 0x1C, CHR 0x1D, CHR 0x1E,
                CHR 0x1F, CHR 0x20, CHR 0x85, CHR 0xA0])"

text \<open>\<^verbatim>\<open>s.strip(chars)\<close>: drop the leading and the trailing characters that satisfy \<open>P\<close>.\<close>

definition strip_with :: "(char \<Rightarrow> bool) \<Rightarrow> string \<Rightarrow> string" where
  "strip_with P s = rev (dropWhile P (rev (dropWhile P s)))"

text \<open>\<^verbatim>\<open>s.strip()\<close>\<close>

definition py_strip :: "string \<Rightarrow> string" where
  "py_strip s = strip_with py_isspace s"

text \<open>\<^verbatim>\<open>s.strip('"')\<close>\<close>

definition strip_quotes :: "string \<Rightarrow> string" where
  "strip_quotes s = strip_with (\<lambda>c. c = CHR 0x22) s"

text \<open>
  \<^verbatim>\<open>s.split(sep)\<close> for a one-character separator. The result is never an empty list,
  so the first branch of the \<open>case\<close> is never taken.
\<close>

fun split_on :: "char \<Rightarrow> string \<Rightarrow> string list" where
  "split_on sep [] = [[]]"
| "split_on sep (c # cs) =
     (if c = sep then [] # split_on sep cs
      else (case split_on sep cs of [] \<Rightarrow> [[c]] | p # ps \<Rightarrow> (c # p) # ps))"

text \<open>
  \<^verbatim>\<open>s.split()\<close>: the maximal runs of non-whitespace characters, in order. The first
  argument is the token being read.
\<close>

fun split_ws_from :: "string \<Rightarrow> string \<Rightarrow> string list" where
  "split_ws_from cur [] = (if cur = [] then [] else [cur])"
| "split_ws_from cur (c # cs) =
     (if py_isspace c then (if cur = [] then split_ws_from [] cs else cur # split_ws_from [] cs)
      else split_ws_from (cur @ [c]) cs)"

definition split_ws :: "string \<Rightarrow> string list" where
  "split_ws s = split_ws_from [] s"

text \<open>\<^verbatim>\<open>s.startswith(p)\<close>\<close>

fun startswith :: "string \<Rightarrow> string \<Rightarrow> bool" where
  "startswith s [] = True"
| "startswith [] (p # ps) = False"
| "startswith (c # cs) (p # ps) = (c = p \<and> startswith cs ps)"

text \<open>\<^verbatim>\<open>sub in s\<close>: \<open>sub\<close> occurs in \<open>s\<close> as a contiguous substring.\<close>

fun py_in :: "string \<Rightarrow> string \<Rightarrow> bool" where
  "py_in sub [] = (sub = [])"
| "py_in sub (c # cs) = (startswith (c # cs) sub \<or> py_in sub cs)"

text \<open>\<^verbatim>\<open>s[-4:]\<close>\<close>

definition last4 :: "string \<Rightarrow> string" where
  "last4 s = drop (length s - 4) s"

section \<open>The XVG object\<close>

text \<open>
  The attributes set by \<^verbatim>\<open>XVG.__init__\<close>. The element type of the numeric columns is
  a parameter: the reader only stores what \<^verbatim>\<open>float\<close> returns.
\<close>

record 'f xvg =
  xvg_filename :: string
  xvg_title :: string
  xvg_xlabel :: string
  xvg_ylabel :: string
  xvg_legends :: "string list"
  xvg_column_num :: nat
  xvg_row_num :: nat
  xvg_columns :: "string list list"
  data_heads :: "string list"
  data_columns :: "'f list list"

text \<open>
  Every \<^verbatim>\<open>print\<close> followed by \<^verbatim>\<open>exit()\<close> is an error value, named after the
  message; \<open>ValueError\<close> is the exception of \<^verbatim>\<open>float\<close> on a token it cannot read
  and of \<^verbatim>\<open>int\<close> on \<^verbatim>\<open>nan\<close>, \<open>OverflowError\<close> that of \<^verbatim>\<open>int\<close> on an infinity,
  \<open>IndexError\<close> that of a list index out of range.
\<close>

datatype error =
    NoSuchFile string
  | BadSuffix
  | ColumnCountMismatch string string
  | ColumnLengthMismatch nat
  | NoDataLine
  | ValueError
  | IndexError
  | ZeroDivisionError
  | OverflowError
  | StartNotBeforeEnd
  | IndexNotBelowRows
  | BadWindowsize
  | BadConfidence
  | ConsistencyError

definition xvg_empty :: "string \<Rightarrow> 'f xvg" where
  "xvg_empty xvgfile =
     \<lparr> xvg_filename = xvgfile, xvg_title = [], xvg_xlabel = [], xvg_ylabel = [],
       xvg_legends = [], xvg_column_num = 0, xvg_row_num = 0, xvg_columns = [],
       data_heads = [], data_columns = [] \<rparr>"

subsection \<open>Reading the lines\<close>

text \<open>\<^verbatim>\<open>line.strip('"').split('"')[-1]\<close>\<close>

definition quoted_value :: "string \<Rightarrow> string" where
  "quoted_value line = last (split_on (CHR 0x22) (strip_quotes line))"

text \<open>
  \<^verbatim>\<open>for i in range(len(items)): self.xvg_columns[i].append(items[i])\<close>, run after the
  check that both lists have the same length.
\<close>

definition append_items :: "string list list \<Rightarrow> string list \<Rightarrow> string list list" where
  "append_items cols items =
     fold (\<lambda>i cs. cs[i := cs ! i @ [items ! i]]) [0 ..< length items] cols"

text \<open>The body of \<^verbatim>\<open>for line in lines\<close>.\<close>

definition read_line :: "'f xvg \<Rightarrow> string \<Rightarrow> error + 'f xvg" where
  "read_line x line =
     (if startswith line ''#'' \<or> startswith line ''&'' then Inr x
      else if startswith line ''@'' then
        (if py_in ''title'' line \<and> \<not> py_in ''subtitle'' line then
           Inr (x\<lparr>xvg_title := quoted_value line\<rparr>)
         else if py_in ''xaxis'' line \<and> py_in ''label'' line then
           Inr (x\<lparr>xvg_xlabel := quoted_value line\<rparr>)
         else if py_in ''yaxis'' line \<and> py_in ''label'' line then
           Inr (x\<lparr>xvg_ylabel := quoted_value line\<rparr>)
         else if startswith line ''@ s'' \<and> py_in ''legend'' line then
           Inr (x\<lparr>xvg_legends := xvg_legends x @ [quoted_value line]\<rparr>)
         else Inr x)
      else
        (let items = split_ws line;
             x1 = (if length (xvg_columns x) = 0
                   then x\<lparr>xvg_columns := replicate (length items) [],
                          xvg_column_num := length items, xvg_row_num := 0\<rparr>
                   else x)
         in if length items \<noteq> length (xvg_columns x1)
            then Inl (ColumnCountMismatch (xvg_filename x1) line)
            else Inr (x1\<lparr>xvg_columns := append_items (xvg_columns x1) items,
                         xvg_row_num := xvg_row_num x1 + 1\<rparr>)))"

fun read_lines :: "'f xvg \<Rightarrow> string list \<Rightarrow> error + 'f xvg" where
  "read_lines x [] = Inr x"
| "read_lines x (line # rest) =
     (case read_line x line of Inl e \<Rightarrow> Inl e | Inr x' \<Rightarrow> read_lines x' rest)"

text \<open>
  \<^verbatim>\<open>[line.strip() for line in fo.readlines() if line.strip() != ""]\<close>
\<close>

definition stripped_lines :: "string list \<Rightarrow> string list" where
  "stripped_lines raw = map py_strip (filter (\<lambda>line. py_strip line \<noteq> []) raw)"

subsection \<open>Post-processing\<close>

text \<open>
  \<^verbatim>\<open>for c in range(self.xvg_column_num): if len(self.xvg_columns[c]) != self.xvg_row_num\<close>
\<close>

fun check_column_lengths :: "'f xvg \<Rightarrow> nat list \<Rightarrow> error option" where
  "check_column_lengths x [] = None"
| "check_column_lengths x (c # cs) =
     (if length (xvg_columns x) \<le> c then Some IndexError
      else if length (xvg_columns x ! c) \<noteq> xvg_row_num x then Some (ColumnLengthMismatch c)
      else check_column_lengths x cs)"

text \<open>
  \<^verbatim>\<open>[float(c) for c in column]\<close>. The builtin \<^verbatim>\<open>float\<close> is the parameter \<open>float\<close>:
  \<open>None\<close> where it raises.
\<close>

fun floats :: "(string \<Rightarrow> 'f option) \<Rightarrow> string list \<Rightarrow> error + 'f list" where
  "floats float [] = Inr []"
| "floats float (c # cs) =
     (case float c of
        None \<Rightarrow> Inl ValueError
      | Some v \<Rightarrow> (case floats float cs of Inl e \<Rightarrow> Inl e | Inr vs \<Rightarrow> Inr (v # vs)))"

definition pairing_warning :: string where
  "pairing_warning = ''Warning -> failed to pair ylabels and legends, use legends in xvg file''"

text \<open>
  The pairing of the y-axis label with the legends: the heads, and what is printed.
\<close>

definition pair_heads :: "string \<Rightarrow> string list \<Rightarrow> string list \<times> string list" where
  "pair_heads ylabel legends =
     (let items = map py_strip (split_on (CHR '','') ylabel);
          heads = legends
      in if length items = length legends then
           (fold (\<lambda>i hs. hs[i := hs ! i @ '' '' @ items ! i]) [0 ..< length items] heads, [])
         else if length items = 1 \<and> length (items ! 0) < 5 then
           (fold (\<lambda>i hs. hs[i := hs ! i @ '' '' @ items ! 0]) [0 ..< length heads] heads, [])
         else (heads, [pairing_warning]))"

text \<open>
  \<^verbatim>\<open>for i in range(len(heads)): self.data_columns.append([float(c) for c in self.xvg_columns[i + 1]])\<close>
\<close>

fun append_series ::
  "(string \<Rightarrow> 'f option) \<Rightarrow> string list list \<Rightarrow> nat list \<Rightarrow> 'f list list \<Rightarrow> error + 'f list list"
where
  "append_series float cols [] dc = Inr dc"
| "append_series float cols (i # is) dc =
     (if length cols \<le> i + 1 then Inl IndexError
      else (case floats float (cols ! (i + 1)) of
              Inl e \<Rightarrow> Inl e
            | Inr vs \<Rightarrow> append_series float cols is (dc @ [vs])))"

text \<open>The x column, then the branch without legends, then the branch with legends.\<close>

definition x_series :: "(string \<Rightarrow> 'f option) \<Rightarrow> 'f xvg \<Rightarrow> error + 'f xvg" where
  "x_series float x =
     (if xvg_columns x = [] then Inl IndexError
      else (case floats float (xvg_columns x ! 0) of
              Inl e \<Rightarrow> Inl e
            | Inr vs \<Rightarrow> Inr (x\<lparr>data_heads := data_heads x @ [xvg_xlabel x],
                                data_columns := data_columns x @ [vs]\<rparr>)))"

definition y_series :: "(string \<Rightarrow> 'f option) \<Rightarrow> 'f xvg \<Rightarrow> error + 'f xvg" where
  "y_series float x =
     (if length (xvg_legends x) = 0 \<and> 1 < length (xvg_columns x) then
        (case floats float (xvg_columns x ! 1) of
           Inl e \<Rightarrow> Inl e
         | Inr vs \<Rightarrow> Inr (x\<lparr>data_heads := data_heads x @ [xvg_ylabel x],
                             data_columns := data_columns x @ [vs]\<rparr>))
      else Inr x)"

definition legend_series ::
  "(string \<Rightarrow> 'f option) \<Rightarrow> 'f xvg \<Rightarrow> error + ('f xvg \<times> string list)"
where
  "legend_series float x =
     (if 0 < length (xvg_legends x) \<and> length (xvg_legends x) < length (xvg_columns x) then
        (let (heads, printed) = pair_heads (xvg_ylabel x) (xvg_legends x)
         in case append_series float (xvg_columns x) [0 ..< length heads] (data_columns x) of
              Inl e \<Rightarrow> Inl e
            | Inr dc \<Rightarrow> Inr (x\<lparr>data_heads := data_heads x @ heads, data_columns := dc\<rparr>, printed))
      else Inr (x, []))"

definition post_process ::
  "(string \<Rightarrow> 'f option) \<Rightarrow> 'f xvg \<Rightarrow> error + ('f xvg \<times> string list)"
where
  "post_process float x =
     (case check_column_lengths x [0 ..< xvg_column_num x] of
        Some e \<Rightarrow> Inl e
      | None \<Rightarrow>
          if xvg_column_num x = 0 \<or> xvg_row_num x = 0 then Inl NoDataLine
          else (case x_series float x of
                  Inl e \<Rightarrow> Inl e
                | Inr x1 \<Rightarrow>
                    (case y_series float x1 of
                       Inl e \<Rightarrow> Inl e
                     | Inr x2 \<Rightarrow>
                         (case legend_series float x2 of
                            Inl e \<Rightarrow> Inl e
                          | Inr (x3, printed) \<Rightarrow>
                              Inr (x3, printed @
                                [''Info -> read '' @ xvg_filename x3 @ '' successfully. ''])))))"

text \<open>
  \<^verbatim>\<open>XVG.__init__\<close>. The file system is the map \<open>fs\<close> from a path to what
  \<^verbatim>\<open>readlines\<close> returns for it; a path outside its domain does not exist. The result is
  the object and the lines printed on the way.
\<close>

definition XVG_init ::
  "(string \<Rightarrow> 'f option) \<Rightarrow> (string \<rightharpoonup> string list) \<Rightarrow> string \<Rightarrow> error + ('f xvg \<times> string list)"
where
  "XVG_init float fs xvgfile =
     (case fs xvgfile of
        None \<Rightarrow> Inl (NoSuchFile xvgfile)
      | Some raw \<Rightarrow>
          if last4 xvgfile \<noteq> ''.xvg'' then Inl BadSuffix
          else (case read_lines (xvg_empty xvgfile) (stripped_lines raw) of
                  Inl e \<Rightarrow> Inl e
                | Inr x \<Rightarrow> post_process float x))"

section \<open>Statistics\<close>

text \<open>
  The analysis methods run on an object whose columns hold numbers. Arithmetic is exact
  (over \<^typ>\<open>real\<close>); \<open>None\<close> stands for \<^verbatim>\<open>nan\<close>, which numpy returns for the mean
  and the standard deviation of an empty sequence.
\<close>

type_synonym npfloat = "real option"

text \<open>
  \<^verbatim>\<open>column[start:end]\<close>: a negative bound counts from the end, a bound outside the list
  is clamped, \<open>None\<close> is an omitted bound.
\<close>

definition slice_bound :: "nat \<Rightarrow> int \<Rightarrow> nat" where
  "slice_bound n i = (if i < 0 then nat (max 0 (int n + i)) else min n (nat i))"

definition py_slice :: "'a list \<Rightarrow> int option \<Rightarrow> int option \<Rightarrow> 'a list" where
  "py_slice xs start stop =
     (let lo = (case start of None \<Rightarrow> 0 | Some i \<Rightarrow> slice_bound (length xs) i);
          hi = (case stop of None \<Rightarrow> length xs | Some j \<Rightarrow> slice_bound (length xs) j)
      in take (hi - lo) (drop lo xs))"

text \<open>\<^verbatim>\<open>np.average\<close> and \<^verbatim>\<open>np.mean\<close> of a list\<close>

definition np_average :: "real list \<Rightarrow> npfloat" where
  "np_average xs = (if xs = [] then None else Some (sum_list xs / real (length xs)))"

text \<open>\<^verbatim>\<open>np.std\<close>: the square root of the mean of the squared distances to the mean\<close>

definition np_std :: "real list \<Rightarrow> npfloat" where
  "np_std xs =
     (case np_average xs of
        None \<Rightarrow> None
      | Some m \<Rightarrow> Some (sqrt (sum_list (map (\<lambda>v. \<bar>v - m\<bar>\<^sup>2) xs) / real (length xs))))"

subsection \<open>\<^verbatim>\<open>calc_average\<close>\<close>

definition calc_average ::
  "real xvg \<Rightarrow> int option \<Rightarrow> int option \<Rightarrow> error + (string list \<times> npfloat list \<times> npfloat list)"
where
  "calc_average x start stop =
     (if (case (start, stop) of (Some s, Some e) \<Rightarrow> e \<le> s | _ \<Rightarrow> False)
      then Inl StartNotBeforeEnd
      else if (case start of Some s \<Rightarrow> int (xvg_row_num x) \<le> s | None \<Rightarrow> False) \<or>
              (case stop of Some e \<Rightarrow> int (xvg_row_num x) \<le> e | None \<Rightarrow> False)
      then Inl IndexNotBelowRows
      else Inr (data_heads x,
                map (\<lambda>column. np_average (py_slice column start stop)) (data_columns x),
                map (\<lambda>column. np_std (py_slice column start stop)) (data_columns x)))"

subsection \<open>\<^verbatim>\<open>calc_mvave\<close>\<close>

text \<open>
  \<^verbatim>\<open>stats.norm.interval\<close> is the parameter \<open>interval\<close>: from the confidence, the mean and
  the standard deviation to the pair (low, high). The inner loop appends to the three
  lists, which start as \<open>windowsize\<close> times \<^verbatim>\<open>nan\<close>.
\<close>

definition mvave_column ::
  "(real \<Rightarrow> npfloat \<Rightarrow> npfloat \<Rightarrow> npfloat \<times> npfloat) \<Rightarrow> nat \<Rightarrow> real \<Rightarrow> nat \<Rightarrow> real list
     \<Rightarrow> npfloat list \<times> npfloat list \<times> npfloat list"
where
  "mvave_column interval windowsize confidence row_num column =
     fold (\<lambda>i (mv_ave, high, low).
             let window_data = py_slice column (Some (int i - int windowsize)) (Some (int i));
                 ave = np_average window_data;
                 std = np_std window_data;
                 iv = interval confidence ave std
             in (mv_ave @ [ave], high @ [snd iv], low @ [fst iv]))
          [windowsize ..< row_num]
          (replicate windowsize None, replicate windowsize None, replicate windowsize None)"

definition calc_mvave ::
  "(real \<Rightarrow> npfloat \<Rightarrow> npfloat \<Rightarrow> npfloat \<times> npfloat) \<Rightarrow> real xvg \<Rightarrow> int \<Rightarrow> real
     \<Rightarrow> error + (string list \<times> npfloat list list \<times> npfloat list list \<times> npfloat list list)"
where
  "calc_mvave interval x windowsize confidence =
     (if windowsize \<le> 0 \<or> int (xvg_row_num x div 2) < windowsize then Inl BadWindowsize
      else if confidence \<le> 0 \<or> 1 \<le> confidence then Inl BadConfidence
      else (let rs = map (mvave_column interval (nat windowsize) confidence (xvg_row_num x))
                         (data_columns x)
            in Inr (data_heads x, map fst rs, map (fst \<circ> snd) rs, map (snd \<circ> snd) rs)))"

subsection \<open>The distribution of \<^verbatim>\<open>draw_distribution\<close>\<close>

text \<open>\<^verbatim>\<open>int(r)\<close> truncates towards zero.\<close>

definition py_int :: "real \<Rightarrow> int" where
  "py_int r = (if 0 \<le> r then \<lfloor>r\<rfloor> else \<lceil>r\<rceil>)"

text \<open>
  \<^verbatim>\<open>frequency[index] += 1\<close>: an index from \<open>-len\<close> to \<open>len - 1\<close> is in range, the negative
  ones counting from the end.
\<close>

definition list_incr :: "nat list \<Rightarrow> int \<Rightarrow> error + nat list" where
  "list_incr frequency index =
     (let n = int (length frequency)
      in if 0 \<le> index \<and> index < n then
           Inr (frequency[nat index := frequency ! nat index + 1])
         else if - n \<le> index \<and> index < 0 then
           Inr (frequency[nat (n + index) := frequency ! nat (n + index) + 1])
         else Inl IndexError)"

text \<open>\<^verbatim>\<open>for value in column\<close>\<close>

fun count_values :: "real \<Rightarrow> real \<Rightarrow> int \<Rightarrow> real list \<Rightarrow> nat list \<Rightarrow> error + nat list" where
  "count_values column_min bin_window bin [] frequency = Inr frequency"
| "count_values column_min bin_window bin (v # vs) frequency =
     (let index = py_int ((v - column_min) / bin_window);
          index = (if index = bin then bin - 1 else index)
      in case list_incr frequency index of
           Inl e \<Rightarrow> Inl e
         | Inr frequency' \<Rightarrow> count_values column_min bin_window bin vs frequency')"

text \<open>\<^verbatim>\<open>np.min\<close> and \<^verbatim>\<open>np.max\<close> of a non-empty list\<close>

definition np_min :: "real list \<Rightarrow> real" where
  "np_min xs = fold min (tl xs) (hd xs)"

definition np_max :: "real list \<Rightarrow> real" where
  "np_max xs = fold max (tl xs) (hd xs)"

text \<open>
  The block under \<^verbatim>\<open>## calculate distribution\<close>, for one column: the pair
  (\<^verbatim>\<open>x_value\<close>, \<^verbatim>\<open>frequency\<close>). numpy raises \<open>ValueError\<close> for the minimum of an empty
  list. With \<^verbatim>\<open>bin\<close> zero the numpy division gives \<^verbatim>\<open>nan\<close> for a constant column, and
  \<^verbatim>\<open>int(nan)\<close> raises \<open>ValueError\<close>; it gives \<^verbatim>\<open>inf\<close> otherwise, the first index is
  then 0, equal to \<^verbatim>\<open>bin\<close>, and \<^verbatim>\<open>frequency[-1]\<close> on the empty list raises
  \<open>IndexError\<close>.
\<close>

definition distribution :: "real list \<Rightarrow> int \<Rightarrow> nat \<Rightarrow> error + (real list \<times> real list)" where
  "distribution column bin row_num =
     (if column = [] then Inl ValueError
      else
        (let column_min = np_min column;
             column_max = np_max column
         in if bin = 0 then (if column_max = column_min then Inl ValueError else Inl IndexError)
            else
              (let bin_window = (column_max - column_min) / real_of_int bin
               in if bin_window \<noteq> 0 then
                    (case count_values column_min bin_window bin column (replicate (nat bin) 0) of
                       Inl e \<Rightarrow> Inl e
                     | Inr frequency \<Rightarrow>
                         if sum_list frequency \<noteq> row_num then Inl ConsistencyError
                         else if row_num = 0 \<and> frequency \<noteq> [] then Inl ZeroDivisionError
                         else Inr (map (\<lambda>b. column_min + bin_window * real b) [0 ..< nat bin],
                                   map (\<lambda>f. real f * 100 / real row_num) frequency))
                  else Inr ([column_min], [1]))))"

text \<open>\<^verbatim>\<open>draw_distribution\<close> without the plotting: the distributions of the columns, in order.\<close>

fun distributions :: "real list list \<Rightarrow> int \<Rightarrow> nat \<Rightarrow> error + (real list \<times> real list) list" where
  "distributions [] bin row_num = Inr []"
| "distributions (column # columns) bin row_num =
     (case distribution column bin row_num of
        Inl e \<Rightarrow> Inl e
      | Inr d \<Rightarrow> (case distributions columns bin row_num of
                    Inl e \<Rightarrow> Inl e
                  | Inr ds \<Rightarrow> Inr (d # ds)))"

definition draw_distribution :: "real xvg \<Rightarrow> int \<Rightarrow> error + (real list \<times> real list) list" where
  "draw_distribution x bin = distributions (data_columns x) bin (xvg_row_num x)"

subsection \<open>The distribution over the float arithmetic of the run\<close>

text \<open>
  The index of a value, and with it the bucket, the branch taken and the exception raised,
  depend on the float arithmetic: on its rounding, on its overflow to an infinity and on
  \<^verbatim>\<open>nan\<close>. The block under \<^verbatim>\<open>## calculate distribution\<close> is therefore given once more
  with the arithmetic as a parameter, so that what is proved of it for every arithmetic
  holds for the binary64 arithmetic of numpy and Python.

  \<^verbatim>\<open>int(x)\<close> on a float gives an integer, or raises \<open>ValueError\<close> on \<^verbatim>\<open>nan\<close> and
  \<open>OverflowError\<close> on an infinity.
\<close>

datatype int_of_float = IntValue int | IntOfNaN | IntOfInf

text \<open>
  The operations the block uses: \<^verbatim>\<open>np.min\<close> and \<^verbatim>\<open>np.max\<close> of a non-empty list, \<^verbatim>\<open>-\<close>,
  \<^verbatim>\<open>/\<close>, \<^verbatim>\<open>+\<close> and \<^verbatim>\<open>*\<close>, the float of a Python int (\<^verbatim>\<open>bin\<close>, \<^verbatim>\<open>b\<close>, \<^verbatim>\<open>f\<close>, the row
  number), the test \<^verbatim>\<open>x == 0\<close> and \<^verbatim>\<open>int(x)\<close>.
\<close>

record 'f arith =
  np_min_of :: "'f list \<Rightarrow> 'f"
  np_max_of :: "'f list \<Rightarrow> 'f"
  f_sub :: "'f \<Rightarrow> 'f \<Rightarrow> 'f"
  f_div :: "'f \<Rightarrow> 'f \<Rightarrow> 'f"
  f_add :: "'f \<Rightarrow> 'f \<Rightarrow> 'f"
  f_mul :: "'f \<Rightarrow> 'f \<Rightarrow> 'f"
  f_of_int :: "int \<Rightarrow> 'f"
  f_is_zero :: "'f \<Rightarrow> bool"
  f_to_int :: "'f \<Rightarrow> int_of_float"

text \<open>
  \<^verbatim>\<open>for value in column\<close>: the index is \<^verbatim>\<open>int((value - column_min) / bin_window)\<close>, the
  index \<^verbatim>\<open>bin\<close> becomes \<^verbatim>\<open>bin - 1\<close>, and \<^verbatim>\<open>frequency[index] += 1\<close>.
\<close>

fun count_values_with ::
  "'f arith \<Rightarrow> 'f \<Rightarrow> 'f \<Rightarrow> int \<Rightarrow> 'f list \<Rightarrow> nat list \<Rightarrow> error + nat list"
where
  "count_values_with ar column_min bin_window bin [] frequency = Inr frequency"
| "count_values_with ar column_min bin_window bin (v # vs) frequency =
     (case f_to_int ar (f_div ar (f_sub ar v column_min) bin_window) of
        IntOfNaN \<Rightarrow> Inl ValueError
      | IntOfInf \<Rightarrow> Inl OverflowError
      | IntValue index \<Rightarrow>
          (case list_incr frequency (if index = bin then bin - 1 else index) of
             Inl e \<Rightarrow> Inl e
           | Inr frequency' \<Rightarrow> count_values_with ar column_min bin_window bin vs frequency'))"

text \<open>\<^verbatim>\<open>f * 100.0 / self.xvg_row_num\<close>\<close>

definition percentage :: "'f arith \<Rightarrow> nat \<Rightarrow> nat \<Rightarrow> 'f" where
  "percentage ar row_num f =
     f_div ar (f_mul ar (f_of_int ar (int f)) (f_of_int ar 100)) (f_of_int ar (int row_num))"

text \<open>
  The block for one column. The division by \<^verbatim>\<open>bin\<close> is numpy's and does not raise; the
  division by the row number is Python's and raises \<open>ZeroDivisionError\<close> for the row
  number zero.
\<close>

definition distribution_with ::
  "'f arith \<Rightarrow> 'f list \<Rightarrow> int \<Rightarrow> nat \<Rightarrow> error + ('f list \<times> 'f list)"
where
  "distribution_with ar column bin row_num =
     (if column = [] then Inl ValueError
      else
        (let column_min = np_min_of ar column;
             column_max = np_max_of ar column;
             bin_window = f_div ar (f_sub ar column_max column_min) (f_of_int ar bin)
         in if \<not> f_is_zero ar bin_window then
              (case count_values_with ar column_min bin_window bin column (replicate (nat bin) 0) of
                 Inl e \<Rightarrow> Inl e
               | Inr frequency \<Rightarrow>
                   if sum_list frequency \<noteq> row_num then Inl ConsistencyError
                   else if row_num = 0 \<and> frequency \<noteq> [] then Inl ZeroDivisionError
                   else Inr (map (\<lambda>b. f_add ar column_min (f_mul ar bin_window (f_of_int ar (int b))))
                               [0 ..< nat bin],
                             map (percentage ar row_num) frequency))
            else Inr ([column_min], [f_of_int ar 1])))"

text \<open>
  The index the loop computes for a value, after the replacement of \<^verbatim>\<open>bin\<close> by
  \<^verbatim>\<open>bin - 1\<close>; there is none when \<^verbatim>\<open>int\<close> raises.
\<close>

definition bucket_with :: "'f arith \<Rightarrow> 'f \<Rightarrow> 'f \<Rightarrow> int \<Rightarrow> 'f \<Rightarrow> int option" where
  "bucket_with ar column_min bin_window bin v =
     (case f_to_int ar (f_div ar (f_sub ar v column_min) bin_window) of
        IntValue index \<Rightarrow> Some (if index = bin then bin - 1 else index)
      | _ \<Rightarrow> None)"

subsection \<open>Arithmetics to compute with\<close>

text \<open>
  One arithmetic to compute with: the finite values are the real numbers and nothing is
  rounded; the infinities and \<^verbatim>\<open>nan\<close> follow IEEE 754, as numpy does (a division by
  zero gives an infinity, or \<^verbatim>\<open>nan\<close> for zero by zero). The sign of a zero is not kept.
  It agrees with binary64 on every computation all of whose intermediate results are
  representable, and on the infinities and \<^verbatim>\<open>nan\<close>.
\<close>

datatype pyfloat = Fin real | PInf | NInf | NaN

fun pf_neg :: "pyfloat \<Rightarrow> pyfloat" where
  "pf_neg (Fin a) = Fin (- a)"
| "pf_neg PInf = NInf"
| "pf_neg NInf = PInf"
| "pf_neg NaN = NaN"

fun pf_add :: "pyfloat \<Rightarrow> pyfloat \<Rightarrow> pyfloat" where
  "pf_add NaN y = NaN"
| "pf_add x NaN = NaN"
| "pf_add PInf NInf = NaN"
| "pf_add NInf PInf = NaN"
| "pf_add PInf y = PInf"
| "pf_add NInf y = NInf"
| "pf_add (Fin a) PInf = PInf"
| "pf_add (Fin a) NInf = NInf"
| "pf_add (Fin a) (Fin b) = Fin (a + b)"

definition pf_sub :: "pyfloat \<Rightarrow> pyfloat \<Rightarrow> pyfloat" where
  "pf_sub x y = pf_add x (pf_neg y)"

fun pf_mul :: "pyfloat \<Rightarrow> pyfloat \<Rightarrow> pyfloat" where
  "pf_mul NaN y = NaN"
| "pf_mul x NaN = NaN"
| "pf_mul (Fin a) (Fin b) = Fin (a * b)"
| "pf_mul (Fin a) y = (if a = 0 then NaN else if 0 < a then y else pf_neg y)"
| "pf_mul x (Fin b) = (if b = 0 then NaN else if 0 < b then x else pf_neg x)"
| "pf_mul PInf y = y"
| "pf_mul NInf y = pf_neg y"

fun pf_div :: "pyfloat \<Rightarrow> pyfloat \<Rightarrow> pyfloat" where
  "pf_div NaN y = NaN"
| "pf_div x NaN = NaN"
| "pf_div (Fin a) (Fin b) =
     (if b \<noteq> 0 then Fin (a / b) else if a = 0 then NaN else if 0 < a then PInf else NInf)"
| "pf_div (Fin a) y = Fin 0"
| "pf_div x (Fin b) = (if 0 \<le> b then x else pf_neg x)"
| "pf_div x y = NaN"

text \<open>The order of the values other than \<^verbatim>\<open>nan\<close>; the minimum and maximum are \<^verbatim>\<open>nan\<close> once a value is.\<close>

fun pf_less :: "pyfloat \<Rightarrow> pyfloat \<Rightarrow> bool" where
  "pf_less (Fin a) (Fin b) = (a < b)"
| "pf_less NInf NInf = False"
| "pf_less NInf y = (y \<noteq> NaN)"
| "pf_less x PInf = (x \<noteq> PInf \<and> x \<noteq> NaN)"
| "pf_less x y = False"

definition pf_min2 :: "pyfloat \<Rightarrow> pyfloat \<Rightarrow> pyfloat" where
  "pf_min2 x y = (if x = NaN \<or> y = NaN then NaN else if pf_less x y then x else y)"

definition pf_max2 :: "pyfloat \<Rightarrow> pyfloat \<Rightarrow> pyfloat" where
  "pf_max2 x y = (if x = NaN \<or> y = NaN then NaN else if pf_less y x then x else y)"

fun pf_to_int :: "pyfloat \<Rightarrow> int_of_float" where
  "pf_to_int (Fin a) = IntValue (py_int a)"
| "pf_to_int NaN = IntOfNaN"
| "pf_to_int x = IntOfInf"

definition exact_arith :: "pyfloat arith" where
  "exact_arith =
     \<lparr>np_min_of = (\<lambda>xs. fold pf_min2 (tl xs) (hd xs)),
      np_max_of = (\<lambda>xs. fold pf_max2 (tl xs) (hd xs)),
      f_sub = pf_sub, f_div = pf_div, f_add = pf_add, f_mul = pf_mul,
      f_of_int = (\<lambda>i. Fin (real_of_int i)),
      f_is_zero = (\<lambda>x. x = Fin 0),
      f_to_int = pf_to_int\<rparr>"





section \<open>Line classes\<close>

text \<open>
  The branch of \<open>read_line\<close> a line takes, as predicates on the line: the tests of the
  \<^verbatim>\<open>if\<close>/\<^verbatim>\<open>elif\<close> chain, each with the negation of the tests before it.
\<close>

definition comment_line :: "string \<Rightarrow> bool" where
  "comment_line line = (startswith line ''#'' \<or> startswith line ''&'')"

definition meta_line :: "string \<Rightarrow> bool" where
  "meta_line line = (\<not> comment_line line \<and> startswith line ''@'')"

definition data_line :: "string \<Rightarrow> bool" where
  "data_line line = (\<not> comment_line line \<and> \<not> startswith line ''@'')"

definition title_test :: "string \<Rightarrow> bool" where
  "title_test line = (py_in ''title'' line \<and> \<not> py_in ''subtitle'' line)"

definition xlabel_test :: "string \<Rightarrow> bool" where
  "xlabel_test line = (py_in ''xaxis'' line \<and> py_in ''label'' line)"

definition ylabel_test :: "string \<Rightarrow> bool" where
  "ylabel_test line = (py_in ''yaxis'' line \<and> py_in ''label'' line)"

definition legend_test :: "string \<Rightarrow> bool" where
  "legend_test line = (startswith line ''@ s'' \<and> py_in ''legend'' line)"

definition title_line :: "string \<Rightarrow> bool" where
  "title_line line = (meta_line line \<and> title_test line)"

definition xlabel_line :: "string \<Rightarrow> bool" where
  "xlabel_line line = (meta_line line \<and> \<not> title_test line \<and> xlabel_test line)"

definition ylabel_line :: "string \<Rightarrow> bool" where
  "ylabel_line line =
     (meta_line line \<and> \<not> title_test line \<and> \<not> xlabel_test line \<and> ylabel_test line)"

definition legend_line :: "string \<Rightarrow> bool" where
  "legend_line line =
     (meta_line line \<and> \<not> title_test line \<and> \<not> xlabel_test line \<and> \<not> ylabel_test line \<and>
      legend_test line)"

text \<open>The value a field holds after a run of lines that overwrite it: that of the last one.\<close>

definition last_value :: "(string \<Rightarrow> bool) \<Rightarrow> string \<Rightarrow> string list \<Rightarrow> string" where
  "last_value P old ls =
     (if filter P ls = [] then old else quoted_value (last (filter P ls)))"

section \<open>Sample inputs\<close>

text \<open>
  \<^verbatim>\<open>float\<close> restricted to the non-empty strings of decimal digits, where it returns
  the number they write; used to run the reader on sample files.
\<close>

definition float_of_digits :: "string \<Rightarrow> real option" where
  "float_of_digits s =
     (if s \<noteq> [] \<and> list_all (\<lambda>c. c \<in> set ''0123456789'') s
      then Some (foldl (\<lambda>a c. 10 * a + real (of_char c - 48)) 0 s) else None)"

text \<open>The double quote, as a string.\<close>

definition dq :: string where
  "dq = [CHR 0x22]"

section \<open>The raw columns as the transposed token rows\<close>

text \<open>
  The state of the reader after the data rows \<open>rs\<close> (each the tokens of one line): the
  column count and the row count are those of \<open>rs\<close>, and column \<open>i\<close> holds token \<open>i\<close>
  of every row, in order.
\<close>

definition rows_inv :: "'f xvg \<Rightarrow> string list list \<Rightarrow> bool" where
  "rows_inv x rs =
     (xvg_column_num x = length (xvg_columns x) \<and> xvg_row_num x = length rs \<and>
      list_all (\<lambda>r. length r = length (xvg_columns x)) rs \<and>
      ((rs = []) = (xvg_columns x = [])) \<and>
      xvg_columns x = map (\<lambda>i. map (\<lambda>r. r ! i) rs) [0 ..< length (xvg_columns x)])"

text \<open>
  The data rows of a file, and those among them whose token count differs from that of
  the first data row.
\<close>

definition data_rows :: "string list \<Rightarrow> string list" where
  "data_rows ls = filter data_line ls"

definition mismatched_rows :: "string list \<Rightarrow> string list" where
  "mismatched_rows ls =
     filter (\<lambda>l. length (split_ws l) \<noteq> length (split_ws (hd (data_rows ls)))) (data_rows ls)"

text \<open>Three small files, as the lists of lines \<^verbatim>\<open>readlines\<close> returns.\<close>

definition energy_file :: "string list" where
  "energy_file =
     [''# gmx energy'',
      ''@    title '' @ dq @ ''Energies'' @ dq,
      ''@    xaxis  label '' @ dq @ ''Time (ps)'' @ dq,
      ''@    yaxis  label '' @ dq @ ''A, B'' @ dq,
      ''@ s0 legend '' @ dq @ ''s1'' @ dq,
      ''@ s1 legend '' @ dq @ ''s2'' @ dq,
      ''0 1 2'', '' 1 3 4 '', '''']"

definition retitled_file :: "string list" where
  "retitled_file =
     [''@ title '' @ dq @ ''first'' @ dq,
      ''@ s0 legend '' @ dq @ ''a'' @ dq,
      ''@ title '' @ dq @ ''second'' @ dq,
      ''@ s1 legend '' @ dq @ ''b'' @ dq,
      ''0 1 2'']"

definition title_legend_file :: "string list" where
  "title_legend_file =
     [''@ title '' @ dq @ ''T'' @ dq,
      ''@ s0 legend '' @ dq @ ''title of run'' @ dq,
      ''@ s1 legend '' @ dq @ ''b'' @ dq,
      ''0 1 2'']"

definition ragged_file :: "string list" where
  "ragged_file = [''0 1'', ''1 2'', ''2 3'', ''3 4'', ''4 5 6'', ''5 6'']"

text \<open>The objects the reader builds from them.\<close>

definition energy_dataset :: "real xvg" where
  "energy_dataset =
     \<lparr>xvg_filename = ''md.xvg'', xvg_title = ''Energies'', xvg_xlabel = ''Time (ps)'',
      xvg_ylabel = ''A, B'', xvg_legends = [''s1'', ''s2''], xvg_column_num = 3,
      xvg_row_num = 2, xvg_columns = [[''0'', ''1''], [''1'', ''3''], [''2'', ''4'']],
      data_heads = [''Time (ps)'', ''s1 A'', ''s2 B''],
      data_columns = [[0, 1], [1, 3], [2, 4]]\<rparr>"

definition retitled_dataset :: "real xvg" where
  "retitled_dataset =
     \<lparr>xvg_filename = ''md.xvg'', xvg_title = ''second'', xvg_xlabel = [], xvg_ylabel = [],
      xvg_legends = [''a'', ''b''], xvg_column_num = 3, xvg_row_num = 1,
      xvg_columns = [[''0''], [''1''], [''2'']],
      data_heads = [[], ''a '', ''b ''], data_columns = [[0], [1], [2]]\<rparr>"

definition title_legend_dataset :: "real xvg" where
  "title_legend_dataset =
     \<lparr>xvg_filename = ''md.xvg'', xvg_title = ''title of run'', xvg_xlabel = [],
      xvg_ylabel = [], xvg_legends = [''b''], xvg_column_num = 3, xvg_row_num = 1,
      xvg_columns = [[''0''], [''1''], [''2'']],
      data_heads = [[], ''b ''], data_columns = [[0], [1]]\<rparr>"

section \<open>The bucket of a value\<close>

text \<open>
  The bucket the specification assigns to a value: the floor of its distance to the
  minimum in units of the bin width, with the last bucket taking the value whose quotient
  is the bin count.
\<close>

definition bucket :: "real \<Rightarrow> real \<Rightarrow> int \<Rightarrow> real \<Rightarrow> int" where
  "bucket column_min bin_window bin v =
     (if \<lfloor>(v - column_min) / bin_window\<rfloor> = bin then bin - 1
      else \<lfloor>(v - column_min) / bin_window\<rfloor>)"


text \<open>
  An object with the columns 0, ..., 5 and 1, ..., 6, and an interval function of the
  shape of the normal interval, mean minus and plus a multiple of the standard deviation
  (here twice), with \<^verbatim>\<open>nan\<close> for \<^verbatim>\<open>nan\<close>.
\<close>

definition ramp_dataset :: "real xvg" where
  "ramp_dataset =
     \<lparr>xvg_filename = ''ramp.xvg'', xvg_title = [], xvg_xlabel = ''t'', xvg_ylabel = ''y'',
      xvg_legends = [], xvg_column_num = 2, xvg_row_num = 6,
      xvg_columns = [[''0'', ''1'', ''2'', ''3'', ''4'', ''5''],
                     [''1'', ''2'', ''3'', ''4'', ''5'', ''6'']],
      data_heads = [''t'', ''y''],
      data_columns = [[0, 1, 2, 3, 4, 5], [1, 2, 3, 4, 5, 6]]\<rparr>"

definition two_sigma :: "real \<Rightarrow> npfloat \<Rightarrow> npfloat \<Rightarrow> npfloat \<times> npfloat" where
  "two_sigma confidence ave std =
     (case (ave, std) of
        (Some m, Some s) \<Rightarrow> (Some (m - 2 * s), Some (m + 2 * s))
      | _ \<Rightarrow> (None, None))"

section \<open>Properties of the string primitives\<close>

lemma split_on_not_Nil: "split_on sep s \<noteq> []"
  by (induction s) (auto split: list.splits)

lemma split_on_no_sep: "sep \<notin> set s \<Longrightarrow> split_on sep s = [s]"
  by (induction s) auto

lemma strip_with_none:
  assumes "\<forall>c \<in> set s. \<not> P c"
  shows "strip_with P s = s"
proof -
  have d: "dropWhile P xs = xs" if "\<forall>c \<in> set xs. \<not> P c" for xs
    using that by (cases xs) auto
  show ?thesis using assms by (simp add: strip_with_def d)
qed

section \<open>The value of a metadata line\<close>

text \<open>
  C4 (as amended). A metadata line without any double quote is its own value: stripping
  the quotes changes nothing, the split has the line as its only piece, and the last
  piece is the whole line. The value is therefore not empty, since the line starts
  with \<open>@\<close>.
\<close>

theorem quoted_value_without_quote:
  assumes "CHR 0x22 \<notin> set line"
  shows "quoted_value line = line"
proof -
  have "strip_quotes line = line"
    unfolding strip_quotes_def using assms by (intro strip_with_none) auto
  then show ?thesis
    using assms by (simp add: quoted_value_def split_on_no_sep)
qed

theorem quoted_value_without_quote_witness:
  "CHR 0x22 \<notin> set ''@    title Gromacs Energies'' \<and>
   quoted_value ''@    title Gromacs Energies'' = ''@    title Gromacs Energies''"
  using quoted_value_without_quote [of "''@    title Gromacs Energies''"] by simp

text \<open>
  The title line \<open>@ title abc\<close> has no double quote, and the title read from it is the
  whole line, not the empty string.
\<close>

theorem unquoted_title_counterexample:
  "CHR 0x22 \<notin> set ''@ title abc'' \<and>
   read_line (xvg_empty ''md.xvg'' :: int xvg) ''@ title abc''
     = Inr ((xvg_empty ''md.xvg'')\<lparr>xvg_title := ''@ title abc''\<rparr>) \<and>
   xvg_title ((xvg_empty ''md.xvg'' :: int xvg)\<lparr>xvg_title := ''@ title abc''\<rparr>) \<noteq> ''''"
  by (simp add: read_line_def quoted_value_def strip_quotes_def strip_with_def)

section \<open>The effect of one line and of a run of lines on the metadata\<close>

lemma at_not_comment: "startswith line ''@'' \<Longrightarrow> \<not> comment_line line"
  by (cases line) (auto simp: comment_line_def)

lemma read_line_comment: "comment_line line \<Longrightarrow> read_line x line = Inr x"
  by (simp add: read_line_def comment_line_def)

lemma read_line_meta:
  "meta_line line \<Longrightarrow> read_line x line =
     Inr (if title_test line then x\<lparr>xvg_title := quoted_value line\<rparr>
          else if xlabel_test line then x\<lparr>xvg_xlabel := quoted_value line\<rparr>
          else if ylabel_test line then x\<lparr>xvg_ylabel := quoted_value line\<rparr>
          else if legend_test line then x\<lparr>xvg_legends := xvg_legends x @ [quoted_value line]\<rparr>
          else x)"
  by (simp add: read_line_def meta_line_def comment_line_def title_test_def xlabel_test_def
      ylabel_test_def legend_test_def)

lemma line_cases: "comment_line line \<or> meta_line line \<or> data_line line"
  by (auto simp: meta_line_def data_line_def)

lemma read_line_data_meta:
  assumes "data_line line" "read_line x line = Inr y"
  shows "xvg_title y = xvg_title x" "xvg_xlabel y = xvg_xlabel x" "xvg_ylabel y = xvg_ylabel x"
    "xvg_legends y = xvg_legends x" "xvg_filename y = xvg_filename x"
    "data_heads y = data_heads x" "data_columns y = data_columns x"
  using assms
  by (auto simp: read_line_def data_line_def comment_line_def Let_def split: if_splits)

lemma read_line_fields:
  assumes "read_line x line = Inr y"
  shows "xvg_title y = (if title_line line then quoted_value line else xvg_title x)"
    and "xvg_xlabel y = (if xlabel_line line then quoted_value line else xvg_xlabel x)"
    and "xvg_ylabel y = (if ylabel_line line then quoted_value line else xvg_ylabel x)"
    and "xvg_legends y = (if legend_line line then xvg_legends x @ [quoted_value line] else xvg_legends x)"
proof -
  consider "comment_line line" | "meta_line line" | "data_line line"
    using line_cases by blast
  then have "xvg_title y = (if title_line line then quoted_value line else xvg_title x) \<and>
    xvg_xlabel y = (if xlabel_line line then quoted_value line else xvg_xlabel x) \<and>
    xvg_ylabel y = (if ylabel_line line then quoted_value line else xvg_ylabel x) \<and>
    xvg_legends y = (if legend_line line then xvg_legends x @ [quoted_value line] else xvg_legends x)"
  proof cases
    case 1
    then have "y = x" using assms by (simp add: read_line_comment)
    moreover have "\<not> meta_line line" using 1 by (simp add: meta_line_def)
    ultimately show ?thesis
      by (simp add: title_line_def xlabel_line_def ylabel_line_def legend_line_def)
  next
    case 2
    then show ?thesis using assms
      by (auto simp: read_line_meta title_line_def xlabel_line_def ylabel_line_def legend_line_def)
  next
    case 3
    then have "\<not> meta_line line" by (simp add: meta_line_def data_line_def)
    then show ?thesis using read_line_data_meta[OF 3 assms]
      by (simp add: title_line_def xlabel_line_def ylabel_line_def legend_line_def)
  qed
  then show "xvg_title y = (if title_line line then quoted_value line else xvg_title x)"
    and "xvg_xlabel y = (if xlabel_line line then quoted_value line else xvg_xlabel x)"
    and "xvg_ylabel y = (if ylabel_line line then quoted_value line else xvg_ylabel x)"
    and "xvg_legends y = (if legend_line line then xvg_legends x @ [quoted_value line] else xvg_legends x)"
    by simp_all
qed

lemma last_value_Cons:
  "last_value P old (l # ls) = last_value P (if P l then quoted_value l else old) ls"
  by (simp add: last_value_def)

lemma read_lines_fields:
  "read_lines x ls = Inr y \<Longrightarrow>
     xvg_title y = last_value title_line (xvg_title x) ls \<and>
     xvg_xlabel y = last_value xlabel_line (xvg_xlabel x) ls \<and>
     xvg_ylabel y = last_value ylabel_line (xvg_ylabel x) ls \<and>
     xvg_legends y = xvg_legends x @ map quoted_value (filter legend_line ls)"
proof (induction ls arbitrary: x)
  case Nil
  then show ?case by (simp add: last_value_def)
next
  case (Cons l ls)
  from Cons.prems obtain x' where s: "read_line x l = Inr x'" and r: "read_lines x' ls = Inr y"
    by (auto split: sum.splits)
  show ?case
    using Cons.IH[OF r] read_line_fields[OF s]
    by (simp add: last_value_Cons)
qed

section \<open>Loops that update a list index by index\<close>

lemma fold_update_nth:
  "k \<le> length hs \<Longrightarrow>
     length (fold (\<lambda>i hs. hs[i := f i (hs ! i)]) [0 ..< k] hs) = length hs \<and>
     (\<forall>j < length hs. fold (\<lambda>i hs. hs[i := f i (hs ! i)]) [0 ..< k] hs ! j
        = (if j < k then f j (hs ! j) else hs ! j))"
proof (induction k)
  case 0
  then show ?case by simp
next
  case (Suc k)
  then have IH: "length (fold (\<lambda>i hs. hs[i := f i (hs ! i)]) [0 ..< k] hs) = length hs"
    "\<And>j. j < length hs \<Longrightarrow> fold (\<lambda>i hs. hs[i := f i (hs ! i)]) [0 ..< k] hs ! j
        = (if j < k then f j (hs ! j) else hs ! j)"
    by auto
  show ?case using Suc.prems IH
    by (auto simp: nth_list_update less_Suc_eq)
qed

lemma fold_update_map2:
  assumes "length items = length hs"
  shows "fold (\<lambda>i hs. hs[i := g (hs ! i) (items ! i)]) [0 ..< length items] hs = map2 g hs items"
proof (rule nth_equalityI)
  show "length (fold (\<lambda>i hs. hs[i := g (hs ! i) (items ! i)]) [0 ..< length items] hs) = length (map2 g hs items)"
    using fold_update_nth[of "length items" hs "\<lambda>i h. g h (items ! i)"] assms by simp
next
  fix j assume "j < length (fold (\<lambda>i hs. hs[i := g (hs ! i) (items ! i)]) [0 ..< length items] hs)"
  then have j: "j < length hs"
    using fold_update_nth[of "length items" hs "\<lambda>i h. g h (items ! i)"] assms by simp
  then show "fold (\<lambda>i hs. hs[i := g (hs ! i) (items ! i)]) [0 ..< length items] hs ! j = map2 g hs items ! j"
    using fold_update_nth[of "length items" hs "\<lambda>i h. g h (items ! i)"] assms by simp
qed

lemma fold_update_map:
  "fold (\<lambda>i hs. hs[i := g (hs ! i)]) [0 ..< length hs] hs = map g hs"
proof (rule nth_equalityI)
  show "length (fold (\<lambda>i hs. hs[i := g (hs ! i)]) [0 ..< length hs] hs) = length (map g hs)"
    using fold_update_nth[of "length hs" hs "\<lambda>i h. g h"] by simp
next
  fix j assume "j < length (fold (\<lambda>i hs. hs[i := g (hs ! i)]) [0 ..< length hs] hs)"
  then have j: "j < length hs"
    using fold_update_nth[of "length hs" hs "\<lambda>i h. g h"] by simp
  then show "fold (\<lambda>i hs. hs[i := g (hs ! i)]) [0 ..< length hs] hs ! j = map g hs ! j"
    using fold_update_nth[of "length hs" hs "\<lambda>i h. g h"] by simp
qed

lemma append_items_map2:
  "length items = length cols \<Longrightarrow> append_items cols items = map2 (\<lambda>c t. c @ [t]) cols items"
  unfolding append_items_def by (rule fold_update_map2)

lemma pair_heads_cases:
  "pair_heads ylabel legends =
     (let items = map py_strip (split_on (CHR '','') ylabel)
      in if length items = length legends then (map2 (\<lambda>l p. l @ '' '' @ p) legends items, [])
         else if length items = 1 \<and> length (hd items) < 5 then (map (\<lambda>l. l @ '' '' @ hd items) legends, [])
         else (legends, [pairing_warning]))"
proof -
  define items where "items = map py_strip (split_on (CHR '','') ylabel)"
  have 1: "fold (\<lambda>i hs. hs[i := hs ! i @ '' '' @ items ! i]) [0 ..< length items] legends
      = map2 (\<lambda>l p. l @ '' '' @ p) legends items" if "length items = length legends"
    using fold_update_map2[OF that, of "\<lambda>l p. l @ '' '' @ p"] by simp
  have 2: "fold (\<lambda>i hs. hs[i := hs ! i @ '' '' @ items ! 0]) [0 ..< length legends] legends
      = map (\<lambda>l. l @ '' '' @ hd items) legends" if "length items = 1"
  proof -
    have "items ! 0 = hd items" using that by (cases items) auto
    then show ?thesis using fold_update_map[of "\<lambda>l. l @ '' '' @ hd items" legends] by simp
  qed
  have 3: "items ! 0 = hd items" if "length items = 1"
    using that by (cases items) auto
  show ?thesis
  proof (cases "length items = length legends")
    case True
    then show ?thesis
      unfolding pair_heads_def Let_def items_def[symmetric] using 1 by simp
  next
    case False
    show ?thesis
    proof (cases "length items = 1")
      case True
      then show ?thesis
        unfolding pair_heads_def Let_def items_def[symmetric]
        using False 2 3 by simp
    next
      case n1: False
      then show ?thesis
        unfolding pair_heads_def Let_def items_def[symmetric]
        using False by simp
    qed
  qed
qed

lemma length_pair_heads: "length (fst (pair_heads ylabel legends)) = length legends"
  by (simp add: pair_heads_cases Let_def)

section \<open>What the reader leaves alone, and the numeric columns it appends\<close>

lemma read_line_frame:
  "read_line x line = Inr y \<Longrightarrow>
     xvg_filename y = xvg_filename x \<and> data_heads y = data_heads x \<and> data_columns y = data_columns x"
  by (auto simp: read_line_def Let_def split: if_splits)

lemma read_lines_frame:
  "read_lines x ls = Inr y \<Longrightarrow>
     xvg_filename y = xvg_filename x \<and> data_heads y = data_heads x \<and> data_columns y = data_columns x"
proof (induction ls arbitrary: x)
  case Nil
  then show ?case by simp
next
  case (Cons l ls)
  from Cons.prems obtain x' where s: "read_line x l = Inr x'" and r: "read_lines x' ls = Inr y"
    by (auto split: sum.splits)
  show ?case using Cons.IH[OF r] read_line_frame[OF s] by simp
qed

lemma length_floats: "floats float cs = Inr vs \<Longrightarrow> length vs = length cs"
  by (induction cs arbitrary: vs) (auto split: option.splits sum.splits)

lemma append_series_upt:
  "append_series float cols [a ..< a + n] dc = Inr dc' \<Longrightarrow>
     length dc' = length dc + n \<and> take (length dc) dc' = dc \<and>
     (\<forall>j < n. a + j + 1 < length cols \<and> floats float (cols ! (a + j + 1)) = Inr (dc' ! (length dc + j)))"
proof (induction n arbitrary: a dc)
  case 0
  then show ?case by simp
next
  case (Suc n)
  have u: "[a ..< a + Suc n] = a # [Suc a ..< Suc a + n]"
    by (simp add: upt_rec)
  from Suc.prems obtain vs where b: "a + 1 < length cols"
    and f: "floats float (cols ! (a + 1)) = Inr vs"
    and r: "append_series float cols [Suc a ..< Suc a + n] (dc @ [vs]) = Inr dc'"
    unfolding u by (auto split: if_splits sum.splits)
  from Suc.IH[OF r] have l: "length dc' = length dc + Suc n"
    and t: "take (Suc (length dc)) dc' = dc @ [vs]"
    and rest: "\<forall>j < n. Suc a + j + 1 < length cols \<and>
        floats float (cols ! (Suc a + j + 1)) = Inr (dc' ! (Suc (length dc) + j))"
    by auto
  have t1: "take (length dc) dc' = dc"
    using arg_cong[OF t, of "take (length dc)"] by (simp add: min_def)
  have t2: "dc' ! length dc = vs"
    using arg_cong[OF t, of "\<lambda>xs. xs ! length dc"] l by simp
  have "a + j + 1 < length cols \<and> floats float (cols ! (a + j + 1)) = Inr (dc' ! (length dc + j))"
    if "j < Suc n" for j
  proof (cases j)
    case 0
    then show ?thesis using b f t2 by simp
  next
    case (Suc k)
    then show ?thesis using rest that by auto
  qed
  then show ?case using l t1 by blast
qed

section \<open>The raw columns after each data row\<close>

lemma read_line_not_data:
  assumes "\<not> data_line l" "rows_inv x rs"
  shows "\<exists>y. read_line x l = Inr y \<and> rows_inv y rs \<and> xvg_filename y = xvg_filename x"
proof -
  from assms(1) consider "comment_line l" | "meta_line l"
    using line_cases by blast
  then show ?thesis
  proof cases
    case 1
    then show ?thesis using assms(2) by (simp add: read_line_comment)
  next
    case 2
    then show ?thesis using assms(2)
      by (simp add: read_line_meta rows_inv_def)
  qed
qed

lemma read_line_data:
  assumes "data_line l"
  shows "read_line x l =
     (let items = split_ws l;
          x1 = (if length (xvg_columns x) = 0
                then x\<lparr>xvg_columns := replicate (length items) [],
                       xvg_column_num := length items, xvg_row_num := 0\<rparr>
                else x)
      in if length items \<noteq> length (xvg_columns x1)
         then Inl (ColumnCountMismatch (xvg_filename x1) l)
         else Inr (x1\<lparr>xvg_columns := append_items (xvg_columns x1) items,
                      xvg_row_num := xvg_row_num x1 + 1\<rparr>))"
  using assms by (simp add: read_line_def data_line_def comment_line_def)

lemma read_line_first_row:
  assumes "data_line l" "rows_inv x []" "split_ws l \<noteq> []"
  shows "\<exists>y. read_line x l = Inr y \<and> rows_inv y [split_ws l] \<and> xvg_filename y = xvg_filename x"
proof -
  define items where "items = split_ws l"
  have c: "xvg_columns x = []" using assms(2) by (simp add: rows_inv_def)
  have a: "append_items (replicate (length items) []) items = map (\<lambda>t. [t]) items"
    by (subst append_items_map2) (auto intro: nth_equalityI)
  have m: "map (\<lambda>t. [t]) items = map (\<lambda>i. [items ! i]) [0 ..< length items]"
    by (auto intro: nth_equalityI)
  show ?thesis
    using assms(3) c a m
    by (simp add: read_line_data[OF assms(1)] items_def[symmetric] rows_inv_def Let_def)
qed

lemma read_line_next_row:
  assumes "data_line l" "rows_inv x rs" "rs \<noteq> []"
  shows "length (split_ws l) \<noteq> length (hd rs) \<Longrightarrow>
           read_line x l = Inl (ColumnCountMismatch (xvg_filename x) l)"
    and "length (split_ws l) = length (hd rs) \<Longrightarrow>
           \<exists>y. read_line x l = Inr y \<and> rows_inv y (rs @ [split_ws l]) \<and> xvg_filename y = xvg_filename x"
proof -
  define items where "items = split_ws l"
  define n where "n = length (xvg_columns x)"
  have c: "xvg_columns x \<noteq> []" using assms(2,3) by (simp add: rows_inv_def)
  have h: "length (hd rs) = n"
    using assms(2,3) by (cases rs) (auto simp: rows_inv_def n_def)
  show "read_line x l = Inl (ColumnCountMismatch (xvg_filename x) l)"
    if "length (split_ws l) \<noteq> length (hd rs)"
    using that c h by (simp add: read_line_data[OF assms(1)] Let_def n_def)
  show "\<exists>y. read_line x l = Inr y \<and> rows_inv y (rs @ [split_ws l]) \<and> xvg_filename y = xvg_filename x"
    if e: "length (split_ws l) = length (hd rs)"
  proof -
    have li: "length items = n" using e h by (simp add: items_def)
    have cols: "xvg_columns x = map (\<lambda>i. map (\<lambda>r. r ! i) rs) [0 ..< n]"
      using assms(2) by (simp add: rows_inv_def n_def)
    have a: "append_items (xvg_columns x) items = map (\<lambda>i. map (\<lambda>r. r ! i) (rs @ [items])) [0 ..< n]"
    proof -
      have "append_items (xvg_columns x) items = map2 (\<lambda>c t. c @ [t]) (xvg_columns x) items"
        by (rule append_items_map2) (simp add: li n_def)
      also have "\<dots> = map2 (\<lambda>c t. c @ [t]) (map (\<lambda>i. map (\<lambda>r. r ! i) rs) [0 ..< n]) items"
        using cols by simp
      also have "\<dots> = map (\<lambda>i. map (\<lambda>r. r ! i) (rs @ [items])) [0 ..< n]"
        using li by (auto intro: nth_equalityI)
      finally show ?thesis .
    qed
    have r: "read_line x l = Inr (x\<lparr>xvg_columns := append_items (xvg_columns x) items,
                      xvg_row_num := xvg_row_num x + 1\<rparr>)"
      using c li by (simp add: read_line_data[OF assms(1)] Let_def items_def[symmetric] n_def)
    have "rows_inv (x\<lparr>xvg_columns := append_items (xvg_columns x) items,
                      xvg_row_num := xvg_row_num x + 1\<rparr>) (rs @ [items])"
      using assms(2) li c unfolding a rows_inv_def n_def[symmetric]
      by (simp add: n_def)
    then show ?thesis using r by (simp add: items_def)
  qed
qed

lemma read_lines_rows:
  assumes "rows_inv x rs" "\<forall>l \<in> set ls. data_line l \<longrightarrow> split_ws l \<noteq> []"
  shows "(if filter (\<lambda>l. data_line l \<and> length (split_ws l) \<noteq> length (hd (rs @ map split_ws (filter data_line ls)))) ls = []
          then \<exists>y. read_lines x ls = Inr y \<and> rows_inv y (rs @ map split_ws (filter data_line ls)) \<and>
                 xvg_filename y = xvg_filename x
          else read_lines x ls = Inl (ColumnCountMismatch (xvg_filename x)
                 (hd (filter (\<lambda>l. data_line l \<and> length (split_ws l) \<noteq> length (hd (rs @ map split_ws (filter data_line ls)))) ls))))"
  using assms
proof (induction ls arbitrary: x rs)
  case Nil
  then show ?case by simp
next
  case (Cons l ls)
  have toks: "\<forall>l \<in> set ls. data_line l \<longrightarrow> split_ws l \<noteq> []" using Cons.prems(2) by simp
  show ?case
  proof (cases "data_line l")
    case False
    from read_line_not_data[OF False Cons.prems(1)] obtain y
      where y: "read_line x l = Inr y" "rows_inv y rs" "xvg_filename y = xvg_filename x"
      by blast
    show ?thesis
      using Cons.IH[OF y(2) toks] y(1,3) False
      by (simp cong: if_cong)
  next
    case True
    show ?thesis
    proof (cases "rs = []")
      case e: True
      have ne: "split_ws l \<noteq> []" using Cons.prems(2) True by simp
      from read_line_first_row[OF True _ ne] Cons.prems(1) e obtain y
        where y: "read_line x l = Inr y" "rows_inv y [split_ws l]" "xvg_filename y = xvg_filename x"
        by blast
      show ?thesis
        using Cons.IH[OF y(2) toks] y(1,3) True e
        by (simp cong: if_cong)
    next
      case ne: False
      then have hd_all: "hd (rs @ zs) = hd rs" for zs by simp
      show ?thesis
      proof (cases "length (split_ws l) = length (hd rs)")
        case eq: True
        from read_line_next_row(2)[OF True Cons.prems(1) ne eq] obtain y
          where y: "read_line x l = Inr y" "rows_inv y (rs @ [split_ws l])"
            "xvg_filename y = xvg_filename x"
          by blast
        show ?thesis
          using Cons.IH[OF y(2) toks] y(1,3) True ne eq
          by (simp cong: if_cong)
      next
        case neq: False
        show ?thesis
          using read_line_next_row(1)[OF True Cons.prems(1) ne neq] True ne neq
          by simp
      qed
    qed
  qed
qed

lemma stripped_line_tokens:
  assumes "l \<in> set (stripped_lines raw)"
  shows "split_ws l \<noteq> []"
proof -
  have sw: "split_ws_from cur s \<noteq> []" if "cur \<noteq> [] \<or> (\<exists>c \<in> set s. \<not> py_isspace c)" for cur s
    using that by (induction s arbitrary: cur) auto
  from assms obtain r where l: "l = py_strip r" "py_strip r \<noteq> []"
    by (auto simp: stripped_lines_def)
  have "\<exists>c \<in> set (py_strip r). \<not> py_isspace c"
  proof -
    have "dropWhile py_isspace (rev (dropWhile py_isspace r)) \<noteq> []"
      using l(2) by (simp add: py_strip_def strip_with_def)
    then have "\<not> py_isspace (hd (dropWhile py_isspace (rev (dropWhile py_isspace r))))"
      by (rule hd_dropWhile)
    moreover have "hd (dropWhile py_isspace (rev (dropWhile py_isspace r))) \<in> set (py_strip r)"
      using \<open>dropWhile py_isspace (rev (dropWhile py_isspace r)) \<noteq> []\<close>
      by (simp add: py_strip_def strip_with_def)
    ultimately show ?thesis by blast
  qed
  then show ?thesis using sw[of "[]" l] l(1) by (simp add: split_ws_def)
qed

lemma mismatched_rows_filter:
  "filter (\<lambda>l. data_line l \<and> length (split_ws l) \<noteq> length (hd ([] @ map split_ws (filter data_line ls)))) ls
     = mismatched_rows ls"
proof (cases "filter data_line ls = []")
  case True
  then have "\<forall>l \<in> set ls. \<not> data_line l" by (simp add: filter_empty_conv)
  then show ?thesis using True by (simp add: mismatched_rows_def data_rows_def)
next
  case False
  then show ?thesis
    by (simp add: mismatched_rows_def data_rows_def hd_map conj_commute)
qed

lemma rows_inv_empty: "rows_inv (xvg_empty xvgfile) []"
  by (simp add: rows_inv_def xvg_empty_def)

lemma read_stripped_lines:
  "(if mismatched_rows (stripped_lines raw) = []
    then \<exists>y. read_lines (xvg_empty xvgfile :: 'f xvg) (stripped_lines raw) = Inr y \<and>
           rows_inv y (map split_ws (data_rows (stripped_lines raw))) \<and>
           xvg_filename y = xvgfile
    else read_lines (xvg_empty xvgfile :: 'f xvg) (stripped_lines raw) =
           Inl (ColumnCountMismatch xvgfile (hd (mismatched_rows (stripped_lines raw)))))"
proof -
  have t: "\<forall>l \<in> set (stripped_lines raw). data_line l \<longrightarrow> split_ws l \<noteq> []"
    using stripped_line_tokens by blast
  have f: "xvg_filename (xvg_empty xvgfile :: 'f xvg) = xvgfile" for xvgfile
    by (simp add: xvg_empty_def)
  have r: "rows_inv (xvg_empty xvgfile :: 'f xvg) []"
    by (rule rows_inv_empty)
  show ?thesis
    using read_lines_rows[OF r t]
    unfolding mismatched_rows_filter f by (simp add: data_rows_def cong: if_cong)
qed

lemma x_series_result:
  assumes "x_series float x = Inr x1"
  shows "xvg_columns x \<noteq> []"
    and "\<exists>vs. floats float (xvg_columns x ! 0) = Inr vs \<and>
           x1 = x\<lparr>data_heads := data_heads x @ [xvg_xlabel x],
                  data_columns := data_columns x @ [vs]\<rparr>"
  using assms by (auto simp: x_series_def split: if_splits sum.splits)

lemma y_series_result:
  assumes "y_series float x = Inr x1"
  shows "if xvg_legends x = [] \<and> 1 < length (xvg_columns x)
         then \<exists>vs. floats float (xvg_columns x ! 1) = Inr vs \<and>
                x1 = x\<lparr>data_heads := data_heads x @ [xvg_ylabel x],
                       data_columns := data_columns x @ [vs]\<rparr>
         else x1 = x"
  using assms by (auto simp: y_series_def split: if_splits sum.splits)

lemma legend_series_result:
  assumes "legend_series float x = Inr (x1, printed)"
  shows "if xvg_legends x \<noteq> [] \<and> length (xvg_legends x) < length (xvg_columns x)
         then \<exists>dc. append_series float (xvg_columns x) [0 ..< length (xvg_legends x)] (data_columns x) = Inr dc \<and>
                x1 = x\<lparr>data_heads := data_heads x @ fst (pair_heads (xvg_ylabel x) (xvg_legends x)),
                       data_columns := dc\<rparr> \<and>
                printed = snd (pair_heads (xvg_ylabel x) (xvg_legends x))
         else x1 = x \<and> printed = []"
proof -
  obtain heads pr where p: "pair_heads (xvg_ylabel x) (xvg_legends x) = (heads, pr)"
    by (cases "pair_heads (xvg_ylabel x) (xvg_legends x)")
  have l: "length heads = length (xvg_legends x)"
    using length_pair_heads[of "xvg_ylabel x" "xvg_legends x"] p by simp
  show ?thesis
    using assms p l by (auto simp: legend_series_def split: if_splits sum.splits)
qed

lemma post_process_result:
  assumes pp: "post_process float x = Inr (y, printed)"
    and e: "data_heads x = []" "data_columns x = []"
  shows "xvg_filename y = xvg_filename x \<and> xvg_title y = xvg_title x \<and>
         xvg_xlabel y = xvg_xlabel x \<and> xvg_ylabel y = xvg_ylabel x \<and>
         xvg_legends y = xvg_legends x \<and> xvg_column_num y = xvg_column_num x \<and>
         xvg_row_num y = xvg_row_num x \<and> xvg_columns y = xvg_columns x"
    and "xvg_column_num x \<noteq> 0 \<and> xvg_row_num x \<noteq> 0"
    and "data_heads y = xvg_xlabel x #
           (if xvg_legends x = [] then (if 1 < length (xvg_columns x) then [xvg_ylabel x] else [])
            else if length (xvg_legends x) < length (xvg_columns x)
                 then fst (pair_heads (xvg_ylabel x) (xvg_legends x)) else [])"
    and "printed =
           (if xvg_legends x \<noteq> [] \<and> length (xvg_legends x) < length (xvg_columns x)
            then snd (pair_heads (xvg_ylabel x) (xvg_legends x)) else []) @
           [''Info -> read '' @ xvg_filename x @ '' successfully. '']"
    and "length (data_columns y) = length (data_heads y)"
    and "\<forall>j < length (data_columns y). j < length (xvg_columns x) \<and>
           floats float (xvg_columns x ! j) = Inr (data_columns y ! j)"
proof -
  from pp obtain x1 x2 x3 pr where
    nz: "xvg_column_num x \<noteq> 0" "xvg_row_num x \<noteq> 0"
    and s1: "x_series float x = Inr x1"
    and s2: "y_series float x1 = Inr x2"
    and s3: "legend_series float x2 = Inr (x3, pr)"
    and yy: "y = x3" "printed = pr @ [''Info -> read '' @ xvg_filename x3 @ '' successfully. '']"
    by (auto simp: post_process_def split: option.splits if_splits sum.splits prod.splits)
  from x_series_result[OF s1] obtain v0 where
    c0: "xvg_columns x \<noteq> []" and f0: "floats float (xvg_columns x ! 0) = Inr v0"
    and x1: "x1 = x\<lparr>data_heads := [xvg_xlabel x], data_columns := [v0]\<rparr>"
    using e by auto
  show "xvg_column_num x \<noteq> 0 \<and> xvg_row_num x \<noteq> 0" using nz by simp
  consider (nolegend) "xvg_legends x = []" "1 < length (xvg_columns x)"
    | (legend) "xvg_legends x \<noteq> []" "length (xvg_legends x) < length (xvg_columns x)"
    | (neither) "\<not> (xvg_legends x = [] \<and> 1 < length (xvg_columns x))"
        "\<not> (xvg_legends x \<noteq> [] \<and> length (xvg_legends x) < length (xvg_columns x))"
    by blast
  then have main: "(xvg_filename y = xvg_filename x \<and> xvg_title y = xvg_title x \<and>
         xvg_xlabel y = xvg_xlabel x \<and> xvg_ylabel y = xvg_ylabel x \<and>
         xvg_legends y = xvg_legends x \<and> xvg_column_num y = xvg_column_num x \<and>
         xvg_row_num y = xvg_row_num x \<and> xvg_columns y = xvg_columns x) \<and>
      data_heads y = xvg_xlabel x #
           (if xvg_legends x = [] then (if 1 < length (xvg_columns x) then [xvg_ylabel x] else [])
            else if length (xvg_legends x) < length (xvg_columns x)
                 then fst (pair_heads (xvg_ylabel x) (xvg_legends x)) else []) \<and>
      pr = (if xvg_legends x \<noteq> [] \<and> length (xvg_legends x) < length (xvg_columns x)
            then snd (pair_heads (xvg_ylabel x) (xvg_legends x)) else []) \<and>
      length (data_columns y) = length (data_heads y) \<and>
      (\<forall>j < length (data_columns y). j < length (xvg_columns x) \<and>
           floats float (xvg_columns x ! j) = Inr (data_columns y ! j))"
  proof cases
    case nolegend
    from y_series_result[OF s2] nolegend obtain v1 where
      f1: "floats float (xvg_columns x ! 1) = Inr v1"
      and x2: "x2 = x\<lparr>data_heads := [xvg_xlabel x, xvg_ylabel x], data_columns := [v0, v1]\<rparr>"
      by (auto simp: x1)
    from legend_series_result[OF s3] nolegend have x3: "x3 = x2" "pr = []"
      by (auto simp: x2)
    show ?thesis
      using nolegend f0 f1 c0 by (auto simp: yy x3 x2 less_Suc_eq)
  next
    case legend
    from y_series_result[OF s2] legend have x2: "x2 = x1"
      by (auto simp: x1)
    from legend_series_result[OF s3] legend obtain dc where
      a: "append_series float (xvg_columns x) [0 ..< 0 + length (xvg_legends x)] [v0] = Inr dc"
      and x3: "x3 = x\<lparr>data_heads := xvg_xlabel x # fst (pair_heads (xvg_ylabel x) (xvg_legends x)),
                        data_columns := dc\<rparr>"
      and p: "pr = snd (pair_heads (xvg_ylabel x) (xvg_legends x))"
      by (auto simp: x2 x1)
    from append_series_upt[OF a] have
      l: "length dc = Suc (length (xvg_legends x))"
      and t: "take 1 dc = [v0]"
      and r: "\<forall>j < length (xvg_legends x). j + 1 < length (xvg_columns x) \<and>
           floats float (xvg_columns x ! (j + 1)) = Inr (dc ! (1 + j))"
      by auto
    have d0: "dc ! 0 = v0"
      using arg_cong[OF t, of "\<lambda>xs. xs ! 0"] by simp
    have cols: "j < length (xvg_columns x) \<and> floats float (xvg_columns x ! j) = Inr (dc ! j)"
      if "j < length dc" for j
    proof (cases j)
      case 0
      then show ?thesis using c0 f0 d0 by simp
    next
      case (Suc k)
      then show ?thesis using r that l by auto
    qed
    show ?thesis
      using legend p l cols by (simp add: yy x3 length_pair_heads)
  next
    case neither
    from y_series_result[OF s2] neither have x2: "x2 = x1"
      by (auto simp: x1)
    from legend_series_result[OF s3] neither have x3: "x3 = x2" "pr = []"
      by (auto simp: x2 x1)
    show ?thesis
      using neither f0 c0 by (auto simp: yy x3 x2 x1)
  qed
  note m1 = main[THEN conjunct1]
  note m2 = main[THEN conjunct2, THEN conjunct1]
  note m3 = main[THEN conjunct2, THEN conjunct2, THEN conjunct1]
  note m4 = main[THEN conjunct2, THEN conjunct2, THEN conjunct2, THEN conjunct1]
  note m5 = main[THEN conjunct2, THEN conjunct2, THEN conjunct2, THEN conjunct2]
  show "xvg_filename y = xvg_filename x \<and> xvg_title y = xvg_title x \<and>
         xvg_xlabel y = xvg_xlabel x \<and> xvg_ylabel y = xvg_ylabel x \<and>
         xvg_legends y = xvg_legends x \<and> xvg_column_num y = xvg_column_num x \<and>
         xvg_row_num y = xvg_row_num x \<and> xvg_columns y = xvg_columns x"
    by (rule m1)
  show "data_heads y = xvg_xlabel x #
           (if xvg_legends x = [] then (if 1 < length (xvg_columns x) then [xvg_ylabel x] else [])
            else if length (xvg_legends x) < length (xvg_columns x)
                 then fst (pair_heads (xvg_ylabel x) (xvg_legends x)) else [])"
    by (rule m2)
  have fn: "xvg_filename x3 = xvg_filename x"
    using m1[THEN conjunct1] yy(1) by simp
  show "printed =
           (if xvg_legends x \<noteq> [] \<and> length (xvg_legends x) < length (xvg_columns x)
            then snd (pair_heads (xvg_ylabel x) (xvg_legends x)) else []) @
           [''Info -> read '' @ xvg_filename x @ '' successfully. '']"
    unfolding yy(2) fn m3[symmetric] by (rule refl)
  show "length (data_columns y) = length (data_heads y)" by (rule m4)
  show "\<forall>j < length (data_columns y). j < length (xvg_columns x) \<and>
           floats float (xvg_columns x ! j) = Inr (data_columns y ! j)" by (rule m5)
qed

section \<open>A successful run of the reader\<close>

lemma XVG_init_Inr:
  assumes "XVG_init float fs xvgfile = Inr (y, printed)"
  obtains raw x where "fs xvgfile = Some raw" "last4 xvgfile = ''.xvg''"
    "read_lines (xvg_empty xvgfile) (stripped_lines raw) = Inr x"
    "post_process float x = Inr (y, printed)"
proof -
  from assms obtain raw where r: "fs xvgfile = Some raw"
    by (cases "fs xvgfile") (auto simp: XVG_init_def)
  from assms r have s: "last4 xvgfile = ''.xvg''"
    by (cases "last4 xvgfile = ''.xvg''") (simp_all add: XVG_init_def)
  from assms r s obtain x where
    "read_lines (xvg_empty xvgfile) (stripped_lines raw) = Inr x"
    "post_process float x = Inr (y, printed)"
    by (cases "read_lines (xvg_empty xvgfile :: 'a xvg) (stripped_lines raw)")
       (simp_all add: XVG_init_def)
  with r s that show thesis by blast
qed

lemma XVG_init_read:
  assumes "XVG_init float fs xvgfile = Inr (y, printed)" "fs xvgfile = Some raw"
  obtains x where
    "read_lines (xvg_empty xvgfile) (stripped_lines raw) = Inr x"
    "post_process float x = Inr (y, printed)"
    "rows_inv x (map split_ws (data_rows (stripped_lines raw)))"
    "xvg_filename x = xvgfile" "data_heads x = []" "data_columns x = []"
    "xvg_title x = last_value title_line [] (stripped_lines raw)"
    "xvg_xlabel x = last_value xlabel_line [] (stripped_lines raw)"
    "xvg_ylabel x = last_value ylabel_line [] (stripped_lines raw)"
    "xvg_legends x = map quoted_value (filter legend_line (stripped_lines raw))"
proof -
  from XVG_init_Inr[OF assms(1)] assms(2) obtain x where
    rl: "read_lines (xvg_empty xvgfile) (stripped_lines raw) = Inr x"
    and pp: "post_process float x = Inr (y, printed)"
    by (metis option.inject)
  have m: "mismatched_rows (stripped_lines raw) = []"
  proof (rule ccontr)
    assume "mismatched_rows (stripped_lines raw) \<noteq> []"
    then have "read_lines (xvg_empty xvgfile :: 'a xvg) (stripped_lines raw) =
           Inl (ColumnCountMismatch xvgfile (hd (mismatched_rows (stripped_lines raw))))"
      using read_stripped_lines[of raw xvgfile, where ?'f = 'a] by simp
    with rl show False by simp
  qed
  have inv: "rows_inv x (map split_ws (data_rows (stripped_lines raw)))"
    using read_stripped_lines[of raw xvgfile, where ?'f = 'a] m rl by simp
  have fr: "xvg_filename x = xvgfile" "data_heads x = []" "data_columns x = []"
    using read_lines_frame[OF rl] by (simp_all add: xvg_empty_def)
  have fl: "xvg_title x = last_value title_line [] (stripped_lines raw)"
    "xvg_xlabel x = last_value xlabel_line [] (stripped_lines raw)"
    "xvg_ylabel x = last_value ylabel_line [] (stripped_lines raw)"
    "xvg_legends x = map quoted_value (filter legend_line (stripped_lines raw))"
    using read_lines_fields[OF rl] by (simp_all add: xvg_empty_def)
  show thesis using that[OF rl pp inv fr fl] .
qed

section \<open>The reader on the sample files\<close>

lemma energy_file_run:
  "XVG_init float_of_digits [''md.xvg'' \<mapsto> energy_file] ''md.xvg''
     = Inr (energy_dataset, [''Info -> read md.xvg successfully. ''])"
  by code_simp

lemma retitled_file_run:
  "XVG_init float_of_digits [''md.xvg'' \<mapsto> retitled_file] ''md.xvg''
     = Inr (retitled_dataset, [''Info -> read md.xvg successfully. ''])"
  by code_simp

lemma title_legend_file_run:
  "XVG_init float_of_digits [''md.xvg'' \<mapsto> title_legend_file] ''md.xvg''
     = Inr (title_legend_dataset, [''Info -> read md.xvg successfully. ''])"
  by code_simp

lemma ragged_file_rows: "mismatched_rows (stripped_lines ragged_file) = [''4 5 6'']"
  by code_simp

lemma title_legend_file_lines:
  "stripped_lines title_legend_file =
     [''@ title '' @ dq @ ''T'' @ dq] @ (''@ s0 legend '' @ dq @ ''title of run'' @ dq) #
     [''@ s1 legend '' @ dq @ ''b'' @ dq, ''0 1 2'']"
  by code_simp

section \<open>The claims about the reader\<close>

text \<open>
  C1. After a successful run on a file, the legends, the labels and the number of raw
  columns of the object are those of the file: the values of the legend lines, of the
  last x-label and y-label line, and the token count of the first data row. With at least
  one legend and more raw columns than legends, the heads after the x head follow the
  three cases: as many stripped comma-separated pieces of the y label as legends, piece
  \<open>i\<close> is appended to legend \<open>i\<close> after a space; else one piece shorter than 5, it is
  appended to every legend after a space; else the legends are kept and the warning is
  printed. The three examples of the pairing are included.
\<close>

theorem header_reconciliation:
  assumes "XVG_init float fs xvgfile = Inr (y, printed)" "fs xvgfile = Some raw"
  shows "(let lines = stripped_lines raw;
              legends = map quoted_value (filter legend_line lines);
              xlabel = last_value xlabel_line [] lines;
              ylabel = last_value ylabel_line [] lines;
              columns = length (split_ws (hd (data_rows lines)));
              items = map py_strip (split_on (CHR '','') ylabel);
              info = ''Info -> read '' @ xvgfile @ '' successfully. ''
          in xvg_legends y = legends \<and> xvg_xlabel y = xlabel \<and> xvg_ylabel y = ylabel \<and>
             length (xvg_columns y) = columns \<and>
             (legends \<noteq> [] \<and> length legends < columns \<longrightarrow>
                (if length items = length legends then
                   data_heads y = xlabel # map2 (\<lambda>l p. l @ '' '' @ p) legends items \<and>
                   printed = [info]
                 else if length items = 1 \<and> length (hd items) < 5 then
                   data_heads y = xlabel # map (\<lambda>l. l @ '' '' @ hd items) legends \<and>
                   printed = [info]
                 else data_heads y = xlabel # legends \<and> printed = [pairing_warning, info]))) \<and>
         pair_heads ''A, B'' [''s1'', ''s2''] = ([''s1 A'', ''s2 B''], []) \<and>
         pair_heads ''nm'' [''s1'', ''s2''] = ([''s1 nm'', ''s2 nm''], []) \<and>
         pair_heads ''Energy Components'' [''s1'', ''s2''] = ([''s1'', ''s2''], [pairing_warning])"
proof -
  define lines where "lines = stripped_lines raw"
  define legends where "legends = map quoted_value (filter legend_line lines)"
  define xlabel where "xlabel = last_value xlabel_line [] lines"
  define ylabel where "ylabel = last_value ylabel_line [] lines"
  define columns where "columns = length (split_ws (hd (data_rows lines)))"
  define items where "items = map py_strip (split_on (CHR '','') ylabel)"
  define info where "info = ''Info -> read '' @ xvgfile @ '' successfully. ''"
  from XVG_init_read[OF assms] obtain x where
    pp: "post_process float x = Inr (y, printed)"
    and inv: "rows_inv x (map split_ws (data_rows lines))"
    and e: "data_heads x = []" "data_columns x = []"
    and fn: "xvg_filename x = xvgfile"
    and fx: "xvg_xlabel x = xlabel" "xvg_ylabel x = ylabel" "xvg_legends x = legends"
    unfolding lines_def legends_def xlabel_def ylabel_def by blast
  note r = post_process_result[OF pp e]
  have eq: "xvg_legends y = legends" "xvg_xlabel y = xlabel" "xvg_ylabel y = ylabel"
    "xvg_columns y = xvg_columns x"
    using r(1) fx by simp_all
  have cn: "xvg_columns x \<noteq> []"
    using r(2) inv by (auto simp: rows_inv_def)
  then have rs: "map split_ws (data_rows lines) \<noteq> []"
    using inv by (simp add: rows_inv_def)
  then have dr: "data_rows lines \<noteq> []" by simp
  then have "hd (data_rows lines) \<in> set (data_rows lines)"
    by (rule hd_in_set)
  moreover have "\<forall>l \<in> set (data_rows lines). length (split_ws l) = length (xvg_columns x)"
    using inv by (simp add: rows_inv_def list_all_iff)
  ultimately have "length (split_ws (hd (data_rows lines))) = length (xvg_columns x)"
    by blast
  then have cols: "length (xvg_columns y) = columns"
    by (simp add: columns_def eq(4))
  have cx: "length (xvg_columns x) = columns" using cols eq(4) by simp
  have three: "(if length items = length legends then
                   data_heads y = xlabel # map2 (\<lambda>l p. l @ '' '' @ p) legends items \<and>
                   printed = [info]
                 else if length items = 1 \<and> length (hd items) < 5 then
                   data_heads y = xlabel # map (\<lambda>l. l @ '' '' @ hd items) legends \<and>
                   printed = [info]
                 else data_heads y = xlabel # legends \<and> printed = [pairing_warning, info])"
    if c: "legends \<noteq> []" "length legends < columns"
  proof -
    have h: "data_heads y = xlabel # fst (pair_heads ylabel legends)"
      using r(3) c unfolding fx cx by simp
    have p: "printed = snd (pair_heads ylabel legends) @ [info]"
      using r(4) c unfolding fx cx fn info_def by simp
    show ?thesis
      unfolding h p pair_heads_cases Let_def items_def[symmetric] by simp
  qed
  have general: "xvg_legends y = legends \<and> xvg_xlabel y = xlabel \<and> xvg_ylabel y = ylabel \<and>
             length (xvg_columns y) = columns \<and>
             (legends \<noteq> [] \<and> length legends < columns \<longrightarrow>
                (if length items = length legends then
                   data_heads y = xlabel # map2 (\<lambda>l p. l @ '' '' @ p) legends items \<and>
                   printed = [info]
                 else if length items = 1 \<and> length (hd items) < 5 then
                   data_heads y = xlabel # map (\<lambda>l. l @ '' '' @ hd items) legends \<and>
                   printed = [info]
                 else data_heads y = xlabel # legends \<and> printed = [pairing_warning, info]))"
    using eq(1,2,3) cols three by blast
  have ex1: "pair_heads ''A, B'' [''s1'', ''s2''] = ([''s1 A'', ''s2 B''], [])"
    by code_simp
  have ex2: "pair_heads ''nm'' [''s1'', ''s2''] = ([''s1 nm'', ''s2 nm''], [])"
    by code_simp
  have ex3: "pair_heads ''Energy Components'' [''s1'', ''s2''] = ([''s1'', ''s2''], [pairing_warning])"
    by code_simp
  note g = general[unfolded items_def info_def columns_def legends_def xlabel_def ylabel_def
      lines_def]
  show ?thesis
    unfolding Let_def by (rule conjI[OF g conjI[OF ex1 conjI[OF ex2 ex3]]])
qed

theorem header_reconciliation_witness:
  "XVG_init float_of_digits [''md.xvg'' \<mapsto> energy_file] ''md.xvg''
     = Inr (energy_dataset, [''Info -> read md.xvg successfully. '']) \<and>
   map quoted_value (filter legend_line (stripped_lines energy_file)) = [''s1'', ''s2''] \<and>
   last_value ylabel_line [] (stripped_lines energy_file) = ''A, B'' \<and>
   length (split_ws (hd (data_rows (stripped_lines energy_file)))) = 3 \<and>
   data_heads energy_dataset = [''Time (ps)'', ''s1 A'', ''s2 B'']"
proof -
  have f: "[''md.xvg'' \<mapsto> energy_file] ''md.xvg'' = Some energy_file" by simp
  note t = header_reconciliation[OF energy_file_run f, THEN conjunct1, unfolded Let_def]
  have L: "map quoted_value (filter legend_line (stripped_lines energy_file)) = [''s1'', ''s2'']"
    using t[THEN conjunct1] by (simp add: energy_dataset_def)
  have X: "last_value xlabel_line [] (stripped_lines energy_file) = ''Time (ps)''"
    using t[THEN conjunct2, THEN conjunct1] by (simp add: energy_dataset_def)
  have Y: "last_value ylabel_line [] (stripped_lines energy_file) = ''A, B''"
    using t[THEN conjunct2, THEN conjunct2, THEN conjunct1] by (simp add: energy_dataset_def)
  have C: "length (split_ws (hd (data_rows (stripped_lines energy_file)))) = 3"
    using t[THEN conjunct2, THEN conjunct2, THEN conjunct2, THEN conjunct1]
    by (simp add: energy_dataset_def)
  have i: "map py_strip (split_on (CHR '','') ''A, B'') = [''A'', ''B'']"
    by code_simp
  note c = t[THEN conjunct2, THEN conjunct2, THEN conjunct2, THEN conjunct2, unfolded L X Y C i]
  have H: "data_heads energy_dataset = [''Time (ps)'', ''s1 A'', ''s2 B'']"
    using c by simp
  from energy_file_run L Y C H show ?thesis by (intro conjI)
qed

text \<open>
  C6. Let the file exist, with the suffix \<open>.xvg\<close>. If some data row has a token count
  other than that of the first data row, then the reader fails with
  \<open>ColumnCountMismatch\<close> carrying the file name and the content of the first such row
  (the row where the reader stops), whatever \<^verbatim>\<open>float\<close> does: the result is an error,
  so no object, partial or not, is returned.
\<close>

theorem column_count_mismatch:
  assumes "fs xvgfile = Some raw" "last4 xvgfile = ''.xvg''"
    and "mismatched_rows (stripped_lines raw) \<noteq> []"
  shows "XVG_init float fs xvgfile =
           Inl (ColumnCountMismatch xvgfile (hd (mismatched_rows (stripped_lines raw)))) \<and>
         hd (mismatched_rows (stripped_lines raw)) \<in> set (data_rows (stripped_lines raw)) \<and>
         length (split_ws (hd (mismatched_rows (stripped_lines raw)))) \<noteq>
           length (split_ws (hd (data_rows (stripped_lines raw))))"
proof -
  have "read_lines (xvg_empty xvgfile :: 'a xvg) (stripped_lines raw) =
           Inl (ColumnCountMismatch xvgfile (hd (mismatched_rows (stripped_lines raw))))"
    using read_stripped_lines[of raw xvgfile, where ?'f = 'a] assms(3) by simp
  then have 1: "XVG_init float fs xvgfile =
           Inl (ColumnCountMismatch xvgfile (hd (mismatched_rows (stripped_lines raw))))"
    using assms(1,2) by (simp add: XVG_init_def)
  have "hd (mismatched_rows (stripped_lines raw)) \<in> set (mismatched_rows (stripped_lines raw))"
    using assms(3) by simp
  then have 2: "hd (mismatched_rows (stripped_lines raw)) \<in> set (data_rows (stripped_lines raw)) \<and>
         length (split_ws (hd (mismatched_rows (stripped_lines raw)))) \<noteq>
           length (split_ws (hd (data_rows (stripped_lines raw))))"
    unfolding mismatched_rows_def[of "stripped_lines raw"] by simp
  from 1 2 show ?thesis by simp
qed

theorem column_count_mismatch_witness:
  "XVG_init float_of_digits [''md.xvg'' \<mapsto> ragged_file] ''md.xvg''
     = Inl (ColumnCountMismatch ''md.xvg'' ''4 5 6'')"
proof -
  have f: "[''md.xvg'' \<mapsto> ragged_file] ''md.xvg'' = Some ragged_file" by simp
  have s: "last4 ''md.xvg'' = ''.xvg''" by (simp add: last4_def)
  have m: "mismatched_rows (stripped_lines ragged_file) \<noteq> []"
    by (simp add: ragged_file_rows)
  from column_count_mismatch[where fs = "[''md.xvg'' \<mapsto> ragged_file]" and xvgfile = "''md.xvg''"
      and raw = ragged_file and float = float_of_digits, OF f s m]
  show ?thesis
    by (simp add: ragged_file_rows)
qed

text \<open>
  C7. After a successful run there are as many heads as numeric columns, every numeric
  column has \<open>xvg_row_num\<close> elements, \<open>xvg_row_num\<close> is the number of lines of the file
  that are not blank and, stripped, start with none of \<open>#\<close>, \<open>&\<close> and \<open>@\<close>, and the
  numeric column 0 is \<^verbatim>\<open>float\<close> of the first token of every data row.
\<close>

theorem analyzed_dataset_invariant:
  assumes "XVG_init float fs xvgfile = Inr (y, printed)" "fs xvgfile = Some raw"
  shows "length (data_heads y) = length (data_columns y) \<and>
         (\<forall>c \<in> set (data_columns y). length c = xvg_row_num y) \<and>
         xvg_row_num y = length (filter (\<lambda>l. py_strip l \<noteq> [] \<and> data_line (py_strip l)) raw) \<and>
         data_columns y \<noteq> [] \<and>
         floats float (map (\<lambda>l. hd (split_ws l)) (data_rows (stripped_lines raw)))
           = Inr (data_columns y ! 0)"
proof -
  define ls where "ls = stripped_lines raw"
  define rs where "rs = map split_ws (data_rows ls)"
  from XVG_init_read[OF assms] obtain x where
    pp: "post_process float x = Inr (y, printed)"
    and inv: "rows_inv x rs"
    and e: "data_heads x = []" "data_columns x = []"
    unfolding rs_def ls_def by blast
  note r = post_process_result[OF pp e]
  have rn: "xvg_row_num y = length rs" using r(1) inv by (simp add: rows_inv_def)
  have cols: "xvg_columns x = map (\<lambda>i. map (\<lambda>r. r ! i) rs) [0 ..< length (xvg_columns x)]"
    using inv by (simp add: rows_inv_def)
  have lc: "length (xvg_columns x ! j) = length rs" if "j < length (xvg_columns x)" for j
  proof -
    have "xvg_columns x ! j = map (\<lambda>i. map (\<lambda>r. r ! i) rs) [0 ..< length (xvg_columns x)] ! j"
      using cols by simp
    also have "\<dots> = map (\<lambda>r. r ! j) rs" using that by simp
    finally show ?thesis by simp
  qed
  have 1: "length (data_heads y) = length (data_columns y)" using r(5) by simp
  have 2: "\<forall>c \<in> set (data_columns y). length c = xvg_row_num y"
  proof
    fix c assume "c \<in> set (data_columns y)"
    then obtain j where j: "j < length (data_columns y)" "c = data_columns y ! j"
      by (auto simp: in_set_conv_nth)
    with r(6) have "j < length (xvg_columns x)" "floats float (xvg_columns x ! j) = Inr c"
      by auto
    then show "length c = xvg_row_num y"
      using length_floats[of float "xvg_columns x ! j" c] lc rn by simp
  qed
  have "data_rows ls = map py_strip (filter (\<lambda>l. py_strip l \<noteq> [] \<and> data_line (py_strip l)) raw)"
    by (simp add: data_rows_def ls_def stripped_lines_def filter_map comp_def conj_commute)
  then have 3: "xvg_row_num y = length (filter (\<lambda>l. py_strip l \<noteq> [] \<and> data_line (py_strip l)) raw)"
    using rn by (simp add: rs_def)
  have 4: "data_columns y \<noteq> []" using r(3,5) by auto
  then have z: "0 < length (data_columns y)" by simp
  from r(6) z have c0: "0 < length (xvg_columns x)"
    and f0: "floats float (xvg_columns x ! 0) = Inr (data_columns y ! 0)" by auto
  have "xvg_columns x ! 0 = map (\<lambda>i. map (\<lambda>r. r ! i) rs) [0 ..< length (xvg_columns x)] ! 0"
    using cols by simp
  also have "\<dots> = map (\<lambda>r. r ! 0) rs" using c0 by simp
  also have "\<dots> = map (\<lambda>l. hd (split_ws l)) (data_rows ls)"
  proof -
    have "split_ws l ! 0 = hd (split_ws l)" if "l \<in> set (data_rows ls)" for l
    proof -
      from that have "l \<in> set (stripped_lines raw)" by (simp add: data_rows_def ls_def)
      then have "split_ws l \<noteq> []" by (rule stripped_line_tokens)
      then show ?thesis by (simp add: hd_conv_nth)
    qed
    then show ?thesis by (simp add: rs_def)
  qed
  finally have 5: "floats float (map (\<lambda>l. hd (split_ws l)) (data_rows ls)) = Inr (data_columns y ! 0)"
    using f0 by simp
  from 1 2 3 4 5 show ?thesis unfolding ls_def by blast
qed

theorem analyzed_dataset_invariant_witness:
  "XVG_init float_of_digits [''md.xvg'' \<mapsto> energy_file] ''md.xvg''
     = Inr (energy_dataset, [''Info -> read md.xvg successfully. '']) \<and>
   length (data_heads energy_dataset) = length (data_columns energy_dataset) \<and>
   list_all (\<lambda>c. length c = xvg_row_num energy_dataset) (data_columns energy_dataset) \<and>
   xvg_row_num energy_dataset =
     length (filter (\<lambda>l. py_strip l \<noteq> [] \<and> data_line (py_strip l)) energy_file) \<and>
   floats float_of_digits (map (\<lambda>l. hd (split_ws l)) (data_rows (stripped_lines energy_file)))
     = Inr (data_columns energy_dataset ! 0)"
proof -
  have f: "[''md.xvg'' \<mapsto> energy_file] ''md.xvg'' = Some energy_file" by simp
  from analyzed_dataset_invariant[OF energy_file_run f]
  have "length (data_heads energy_dataset) = length (data_columns energy_dataset) \<and>
   list_all (\<lambda>c. length c = xvg_row_num energy_dataset) (data_columns energy_dataset) \<and>
   xvg_row_num energy_dataset =
     length (filter (\<lambda>l. py_strip l \<noteq> [] \<and> data_line (py_strip l)) energy_file) \<and>
   floats float_of_digits (map (\<lambda>l. hd (split_ws l)) (data_rows (stripped_lines energy_file)))
     = Inr (data_columns energy_dataset ! 0)"
    by (simp add: list_all_iff)
  with energy_file_run show ?thesis by (rule conjI)
qed

text \<open>
  C9. A line that starts with \<open>@\<close> and contains \<open>title\<close> but not \<open>subtitle\<close> sets
  the title and nothing else, whatever else it contains. In a file that is read
  successfully, such a line gives the title unless a later title line does, and it adds
  nothing to the legends: they are the values of the legend lines before and after it.
  For every line that starts with \<open>@\<close> the tests run on the whole line in the order
  title, x label, y label, legend, and the first that holds decides.
\<close>

theorem title_test_comes_first:
  assumes "startswith line ''@''" "py_in ''title'' line" "\<not> py_in ''subtitle'' line"
    and "XVG_init float fs xvgfile = Inr (y, printed)" "fs xvgfile = Some raw"
    and "stripped_lines raw = pre @ line # post"
  shows "read_line x line = Inr (x\<lparr>xvg_title := quoted_value line\<rparr>) \<and>
         xvg_title y = last_value title_line (quoted_value line) post \<and>
         xvg_legends y = map quoted_value (filter legend_line (pre @ post)) \<and>
         (\<forall>l. startswith l ''@'' \<longrightarrow>
            read_line x l =
              Inr (if py_in ''title'' l \<and> \<not> py_in ''subtitle'' l then
                     x\<lparr>xvg_title := quoted_value l\<rparr>
                   else if py_in ''xaxis'' l \<and> py_in ''label'' l then
                     x\<lparr>xvg_xlabel := quoted_value l\<rparr>
                   else if py_in ''yaxis'' l \<and> py_in ''label'' l then
                     x\<lparr>xvg_ylabel := quoted_value l\<rparr>
                   else if startswith l ''@ s'' \<and> py_in ''legend'' l then
                     x\<lparr>xvg_legends := xvg_legends x @ [quoted_value l]\<rparr>
                   else x))"
proof -
  have 4: "\<forall>l. startswith l ''@'' \<longrightarrow>
            read_line x l =
              Inr (if py_in ''title'' l \<and> \<not> py_in ''subtitle'' l then
                     x\<lparr>xvg_title := quoted_value l\<rparr>
                   else if py_in ''xaxis'' l \<and> py_in ''label'' l then
                     x\<lparr>xvg_xlabel := quoted_value l\<rparr>
                   else if py_in ''yaxis'' l \<and> py_in ''label'' l then
                     x\<lparr>xvg_ylabel := quoted_value l\<rparr>
                   else if startswith l ''@ s'' \<and> py_in ''legend'' l then
                     x\<lparr>xvg_legends := xvg_legends x @ [quoted_value l]\<rparr>
                   else x)"
  proof (intro allI impI)
    fix l assume "startswith l ''@''"
    then have "meta_line l" using at_not_comment by (simp add: meta_line_def)
    then show "read_line x l =
              Inr (if py_in ''title'' l \<and> \<not> py_in ''subtitle'' l then
                     x\<lparr>xvg_title := quoted_value l\<rparr>
                   else if py_in ''xaxis'' l \<and> py_in ''label'' l then
                     x\<lparr>xvg_xlabel := quoted_value l\<rparr>
                   else if py_in ''yaxis'' l \<and> py_in ''label'' l then
                     x\<lparr>xvg_ylabel := quoted_value l\<rparr>
                   else if startswith l ''@ s'' \<and> py_in ''legend'' l then
                     x\<lparr>xvg_legends := xvg_legends x @ [quoted_value l]\<rparr>
                   else x)"
      by (simp add: read_line_meta title_test_def xlabel_test_def ylabel_test_def
          legend_test_def)
  qed
  have m: "meta_line line" using assms(1) at_not_comment by (simp add: meta_line_def)
  have t: "title_test line" using assms(2,3) by (simp add: title_test_def)
  have 1: "read_line x line = Inr (x\<lparr>xvg_title := quoted_value line\<rparr>)"
    using m t by (simp add: read_line_meta)
  have tl: "title_line line" "\<not> legend_line line"
    using m t by (simp_all add: title_line_def legend_line_def)
  from XVG_init_read[OF assms(4,5)] obtain x0 where
    pp: "post_process float x0 = Inr (y, printed)"
    and e: "data_heads x0 = []" "data_columns x0 = []"
    and f: "xvg_title x0 = last_value title_line [] (stripped_lines raw)"
    "xvg_legends x0 = map quoted_value (filter legend_line (stripped_lines raw))"
    by blast
  have 2: "xvg_title y = last_value title_line (quoted_value line) post"
    using post_process_result(1)[OF pp e] f(1) tl(1)
    unfolding assms(6) by (simp add: last_value_def)
  have 3: "xvg_legends y = map quoted_value (filter legend_line (pre @ post))"
    using post_process_result(1)[OF pp e] f(2) tl(2)
    unfolding assms(6) by simp
  from 1 2 3 4 show ?thesis by (intro conjI)
qed

theorem title_test_comes_first_witness:
  "read_line (xvg_empty ''md.xvg'' :: real xvg) (''@ s0 legend '' @ dq @ ''title of run'' @ dq)
     = Inr ((xvg_empty ''md.xvg'')\<lparr>xvg_title := ''title of run''\<rparr>) \<and>
   xvg_title title_legend_dataset = ''title of run'' \<and>
   xvg_legends title_legend_dataset = [''b'']"
proof -
  have a: "startswith (''@ s0 legend '' @ dq @ ''title of run'' @ dq) ''@''"
    "py_in ''title'' (''@ s0 legend '' @ dq @ ''title of run'' @ dq)"
    "\<not> py_in ''subtitle'' (''@ s0 legend '' @ dq @ ''title of run'' @ dq)"
    by (simp_all add: dq_def)
  have f: "[''md.xvg'' \<mapsto> title_legend_file] ''md.xvg'' = Some title_legend_file" by simp
  have q: "quoted_value (''@ s0 legend '' @ dq @ ''title of run'' @ dq) = ''title of run''"
    by code_simp
  note t = title_test_comes_first[where fs = "[''md.xvg'' \<mapsto> title_legend_file]"
      and raw = title_legend_file and x = "xvg_empty ''md.xvg'' :: real xvg",
      OF a title_legend_file_run f title_legend_file_lines]
  have 1: "read_line (xvg_empty ''md.xvg'' :: real xvg) (''@ s0 legend '' @ dq @ ''title of run'' @ dq)
     = Inr ((xvg_empty ''md.xvg'')\<lparr>xvg_title := ''title of run''\<rparr>)"
    using t[THEN conjunct1] unfolding q .
  have 2: "xvg_title title_legend_dataset = ''title of run''"
    by (simp add: title_legend_dataset_def)
  have 3: "xvg_legends title_legend_dataset = [''b'']"
    by (simp add: title_legend_dataset_def)
  from 1 2 3 show ?thesis by (intro conjI)
qed

text \<open>
  C10. After a successful run the title, the x label and the y label are the values of the
  last title, x-label and y-label line of the file (empty without such a line), and the
  legends are the values of all legend lines, in the order of the file.
\<close>

theorem metadata_last_wins:
  assumes "XVG_init float fs xvgfile = Inr (y, printed)" "fs xvgfile = Some raw"
  shows "xvg_title y = last_value title_line [] (stripped_lines raw) \<and>
         xvg_xlabel y = last_value xlabel_line [] (stripped_lines raw) \<and>
         xvg_ylabel y = last_value ylabel_line [] (stripped_lines raw) \<and>
         xvg_legends y = map quoted_value (filter legend_line (stripped_lines raw))"
proof -
  from XVG_init_read[OF assms] obtain x where
    pp: "post_process float x = Inr (y, printed)"
    and e: "data_heads x = []" "data_columns x = []"
    and f: "xvg_title x = last_value title_line [] (stripped_lines raw)"
    "xvg_xlabel x = last_value xlabel_line [] (stripped_lines raw)"
    "xvg_ylabel x = last_value ylabel_line [] (stripped_lines raw)"
    "xvg_legends x = map quoted_value (filter legend_line (stripped_lines raw))"
    by blast
  from post_process_result(1)[OF pp e] f show ?thesis by simp
qed

theorem metadata_last_wins_witness:
  "XVG_init float_of_digits [''md.xvg'' \<mapsto> retitled_file] ''md.xvg''
     = Inr (retitled_dataset, [''Info -> read md.xvg successfully. '']) \<and>
   xvg_title retitled_dataset = ''second'' \<and>
   last_value title_line [] (stripped_lines retitled_file) = ''second'' \<and>
   xvg_legends retitled_dataset = [''a'', ''b''] \<and>
   map quoted_value (filter legend_line (stripped_lines retitled_file)) = [''a'', ''b'']"
proof -
  have f: "[''md.xvg'' \<mapsto> retitled_file] ''md.xvg'' = Some retitled_file" by simp
  from metadata_last_wins[OF retitled_file_run f]
  have "xvg_title retitled_dataset = ''second'' \<and>
   last_value title_line [] (stripped_lines retitled_file) = ''second'' \<and>
   xvg_legends retitled_dataset = [''a'', ''b''] \<and>
   map quoted_value (filter legend_line (stripped_lines retitled_file)) = [''a'', ''b'']"
    by (simp add: retitled_dataset_def)
  with retitled_file_run show ?thesis by (rule conjI)
qed

section \<open>Counting the values into buckets\<close>

lemma np_min_Min: "xs \<noteq> [] \<Longrightarrow> np_min xs = Min (set xs)"
  by (cases xs) (simp_all add: np_min_def Min.set_eq_fold[symmetric])

lemma np_max_Max: "xs \<noteq> [] \<Longrightarrow> np_max xs = Max (set xs)"
  by (cases xs) (simp_all add: np_max_def Max.set_eq_fold[symmetric])














section \<open>The arithmetics without and with rounding\<close>

text \<open>
  On finite values the distribution computed without rounding is \<open>distribution\<close>, and the
  index of a value is the bucket of the specification.
\<close>

lemma fold_pf_min2: "fold pf_min2 (map Fin xs) (Fin a) = Fin (fold min xs a)"
  by (induction xs arbitrary: a) (simp_all add: pf_min2_def min_def)

lemma fold_pf_max2: "fold pf_max2 (map Fin xs) (Fin a) = Fin (fold max xs a)"
  by (induction xs arbitrary: a) (simp_all add: pf_max2_def max_def)

lemma exact_min_max:
  assumes "xs \<noteq> []"
  shows "np_min_of exact_arith (map Fin xs) = Fin (np_min xs)"
    and "np_max_of exact_arith (map Fin xs) = Fin (np_max xs)"
  using assms
  by (cases xs; simp add: exact_arith_def np_min_def np_max_def fold_pf_min2 fold_pf_max2)+

lemma exact_bucket:
  assumes "bin_window \<noteq> 0" "0 \<le> (v - column_min) / bin_window"
  shows "bucket_with exact_arith (Fin column_min) (Fin bin_window) bin (Fin v) =
           Some (bucket column_min bin_window bin v)"
  using assms by (simp add: bucket_with_def exact_arith_def pf_sub_def py_int_def bucket_def)

lemma count_values_exact:
  "bin_window \<noteq> 0 \<Longrightarrow>
     count_values_with exact_arith (Fin column_min) (Fin bin_window) bin (map Fin vs) frequency =
       count_values column_min bin_window bin vs frequency"
proof (induction vs arbitrary: frequency)
  case Nil
  then show ?case by simp
next
  case (Cons v vs)
  have q: "f_to_int exact_arith (f_div exact_arith (f_sub exact_arith (Fin v) (Fin column_min)) (Fin bin_window))
      = IntValue (py_int ((v - column_min) / bin_window))"
    using Cons.prems by (simp add: exact_arith_def pf_sub_def)
  show ?case
    using Cons.IH[OF Cons.prems] by (simp add: q Let_def split: sum.splits)
qed

lemma distribution_exact:
  "distribution_with exact_arith (map Fin column) bin row_num =
     map_sum id (map_prod (map Fin) (map Fin)) (distribution column bin row_num)"
proof (cases "column = []")
  case True
  then show ?thesis by (simp add: distribution_with_def distribution_def)
next
  case ne: False
  define column_min where "column_min = np_min column"
  define column_max where "column_max = np_max column"
  obtain v vs where c: "column = v # vs" using ne by (cases column) auto
  have mm: "np_min_of exact_arith (map Fin column) = Fin column_min"
    "np_max_of exact_arith (map Fin column) = Fin column_max"
    by (simp_all add: exact_min_max[OF ne] column_min_def column_max_def)
  have s: "f_sub exact_arith (Fin column_max) (Fin column_min) = Fin (column_max - column_min)"
    by (simp add: exact_arith_def pf_sub_def)
  show ?thesis
  proof (cases "bin = 0")
    case True
    show ?thesis
    proof (cases "column_max = column_min")
      case eq: True
      have w: "f_div exact_arith (Fin (column_max - column_min)) (f_of_int exact_arith bin) = NaN"
        using True eq by (simp add: exact_arith_def)
      have z: "\<not> f_is_zero exact_arith NaN" by (simp add: exact_arith_def)
      have l: "count_values_with exact_arith (Fin column_min) NaN bin (map Fin column) fr = Inl ValueError"
        for fr
        unfolding c by (simp add: exact_arith_def pf_sub_def)
      show ?thesis
        unfolding distribution_with_def distribution_def Let_def mm s w
          column_min_def[symmetric] column_max_def[symmetric]
        using ne True eq z l by simp
    next
      case neq: False
      have le: "column_min \<le> column_max"
        using ne by (simp add: column_min_def column_max_def np_min_Min np_max_Max)
      then have lt: "0 < column_max - column_min" using neq by simp
      have w: "f_div exact_arith (Fin (column_max - column_min)) (f_of_int exact_arith bin) = PInf"
        using True lt by (simp add: exact_arith_def)
      have z: "\<not> f_is_zero exact_arith PInf" by (simp add: exact_arith_def)
      have l: "count_values_with exact_arith (Fin column_min) PInf bin (map Fin column) [] = Inl IndexError"
        unfolding c using True
        by (simp add: exact_arith_def pf_sub_def py_int_def list_incr_def)
      show ?thesis
        unfolding distribution_with_def distribution_def Let_def mm s w
          column_min_def[symmetric] column_max_def[symmetric]
        using ne True neq z l by simp
    qed
  next
    case False
    define bin_window where "bin_window = (column_max - column_min) / real_of_int bin"
    have w: "f_div exact_arith (Fin (column_max - column_min)) (f_of_int exact_arith bin) = Fin bin_window"
      using False by (simp add: exact_arith_def bin_window_def)
    have z: "f_is_zero exact_arith (Fin bin_window) \<longleftrightarrow> bin_window = 0"
      by (simp add: exact_arith_def)
    have x: "f_add exact_arith (Fin column_min) (f_mul exact_arith (Fin bin_window) (f_of_int exact_arith (int b)))
        = Fin (column_min + bin_window * real b)" for b
      by (simp add: exact_arith_def)
    have p: "percentage exact_arith row_num f = Fin (real f * 100 / real row_num)"
      if "row_num \<noteq> 0" for f
      using that by (simp add: percentage_def exact_arith_def)
    have o: "f_of_int exact_arith 1 = Fin 1" by (simp add: exact_arith_def)
    show ?thesis
    proof (cases "bin_window = 0")
      case True
      then show ?thesis
        unfolding distribution_with_def distribution_def Let_def mm s w
          column_min_def[symmetric] column_max_def[symmetric] bin_window_def[symmetric]
        using ne \<open>bin \<noteq> 0\<close> z o by simp
    next
      case nz: False
      show ?thesis
        unfolding distribution_with_def distribution_def Let_def mm s w
          column_min_def[symmetric] column_max_def[symmetric] bin_window_def[symmetric]
          count_values_exact[OF nz]
        using ne \<open>bin \<noteq> 0\<close> z nz x p
        by (auto simp: comp_def split: sum.splits)
    qed
  qed
qed














section \<open>The claims about the distribution\<close>




section \<open>Slices, means and the moving-average loop\<close>

lemma py_slice_nat:
  assumes "a \<le> b" "b \<le> length c"
  shows "py_slice c (Some (int a)) (Some (int b)) = map (\<lambda>i. c ! i) [a ..< b]"
proof -
  have "py_slice c (Some (int a)) (Some (int b)) = take (b - a) (drop a c)"
    using assms by (simp add: py_slice_def slice_bound_def min_def)
  also have "\<dots> = map (\<lambda>i. c ! i) [a ..< b]"
    using assms by (auto intro!: nth_equalityI)
  finally show ?thesis .
qed

lemma py_slice_all: "py_slice c None None = c"
  by (simp add: py_slice_def)

lemma py_slice_one_sided:
  "py_slice c (Some (int a)) None = drop a c" "py_slice c None (Some (int b)) = take b c"
  by (simp_all add: py_slice_def slice_bound_def min_def)

lemma np_average_std:
  assumes "xs \<noteq> []"
  shows "np_average xs = Some (sum_list xs / real (length xs))"
    and "np_std xs = Some (sqrt ((\<Sum>v\<leftarrow>xs. (v - sum_list xs / real (length xs))\<^sup>2) / real (length xs)))"
  using assms by (simp_all add: np_average_def np_std_def)

lemma sqrt_quarter: "sqrt (1 / 4) = 1 / 2"
  by (simp add: real_sqrt_divide)

lemma fold_mvave:
  "fold (\<lambda>i (mv, hi, lo). (mv @ [A i], hi @ [B i], lo @ [C i])) is (a, b, c)
     = (a @ map A is, b @ map B is, c @ map C is)"
  by (induction "is" arbitrary: a b c) simp_all

lemma mvave_column_eq:
  "mvave_column interval w confidence n column =
     (replicate w None @
        map (\<lambda>i. np_average (py_slice column (Some (int i - int w)) (Some (int i)))) [w ..< n],
      replicate w None @
        map (\<lambda>i. snd (interval confidence
                        (np_average (py_slice column (Some (int i - int w)) (Some (int i))))
                        (np_std (py_slice column (Some (int i - int w)) (Some (int i))))))
            [w ..< n],
      replicate w None @
        map (\<lambda>i. fst (interval confidence
                        (np_average (py_slice column (Some (int i - int w)) (Some (int i))))
                        (np_std (py_slice column (Some (int i - int w)) (Some (int i))))))
            [w ..< n])"
  unfolding mvave_column_def Let_def by (rule fold_mvave)

lemma ramp_window: "py_slice [1, 2, 3, 4, 5, 6 :: real] (Some (int 2 - int 2)) (Some (int 2)) = [1, 2]"
  by (simp add: py_slice_def slice_bound_def)

lemma ramp_window_stats: "np_average [1, 2] = Some (3 / 2)" "np_std [1, 2] = Some (1 / 2)"
proof -
  show a: "np_average [1, 2] = Some (3 / 2)" by (simp add: np_average_def)
  have "sum_list (map (\<lambda>v. \<bar>v - 3 / 2\<bar>\<^sup>2) [1, 2 :: real]) / real (length [1, 2 :: real]) = 1 / 4"
    by (simp add: power2_eq_square)
  then show "np_std [1, 2] = Some (1 / 2)"
    unfolding np_std_def a by (simp add: sqrt_quarter del: power2_abs)
qed

section \<open>The claims about the statistics\<close>

text \<open>
  C5. \<^verbatim>\<open>calc_average\<close> fails exactly when both bounds are given with the start not
  below the end, or a given bound is not below the row count, and then with one of the two
  range errors; otherwise it returns the heads with, for every column, the mean and the
  population standard deviation of the slice from start to end. The slice without bounds
  is the whole column, the slice between natural bounds is the elements at the indices
  from start up to but excluding end, the mean is the sum over the length and the
  deviation the root of the mean squared distance to the mean. On the columns 0..5 and
  1..6 the range from 1 to 4 gives the means 2 and 3.
\<close>

theorem calc_average_range:
  fixes x :: "real xvg"
  shows "((\<exists>e. calc_average x start stop = Inl e) \<longleftrightarrow>
            (\<exists>s e. start = Some s \<and> stop = Some e \<and> e \<le> s) \<or>
            (\<exists>s. start = Some s \<and> int (xvg_row_num x) \<le> s) \<or>
            (\<exists>e. stop = Some e \<and> int (xvg_row_num x) \<le> e)) \<and>
         (\<forall>e. calc_average x start stop = Inl e \<longrightarrow> e = StartNotBeforeEnd \<or> e = IndexNotBelowRows) \<and>
         (\<forall>r. calc_average x start stop = Inr r \<longrightarrow>
            r = (data_heads x,
                 map (\<lambda>column. np_average (py_slice column start stop)) (data_columns x),
                 map (\<lambda>column. np_std (py_slice column start stop)) (data_columns x))) \<and>
         py_slice c None None = c \<and>
         py_slice c (Some (int a)) None = drop a c \<and>
         py_slice c None (Some (int b)) = take b c \<and>
         (a \<le> b \<and> b \<le> length c \<longrightarrow>
            py_slice c (Some (int a)) (Some (int b)) = map (\<lambda>i. c ! i) [a ..< b]) \<and>
         (xs \<noteq> [] \<longrightarrow>
            np_average xs = Some (sum_list xs / real (length xs)) \<and>
            np_std xs = Some (sqrt ((\<Sum>v\<leftarrow>xs. (v - sum_list xs / real (length xs))\<^sup>2) / real (length xs)))) \<and>
         calc_average ramp_dataset (Some 1) (Some 4) =
           Inr ([''t'', ''y''], [Some 2, Some 3], [Some (sqrt (2 / 3)), Some (sqrt (2 / 3))])"
proof -
  have 1: "(\<exists>e. calc_average x start stop = Inl e) \<longleftrightarrow>
            (\<exists>s e. start = Some s \<and> stop = Some e \<and> e \<le> s) \<or>
            (\<exists>s. start = Some s \<and> int (xvg_row_num x) \<le> s) \<or>
            (\<exists>e. stop = Some e \<and> int (xvg_row_num x) \<le> e)"
    by (cases start; cases stop) (auto simp: calc_average_def)
  have 2: "\<forall>e. calc_average x start stop = Inl e \<longrightarrow> e = StartNotBeforeEnd \<or> e = IndexNotBelowRows"
    by (auto simp: calc_average_def split: if_splits)
  have 3: "\<forall>r. calc_average x start stop = Inr r \<longrightarrow>
            r = (data_heads x,
                 map (\<lambda>column. np_average (py_slice column start stop)) (data_columns x),
                 map (\<lambda>column. np_std (py_slice column start stop)) (data_columns x))"
    by (auto simp: calc_average_def split: if_splits)
  have 5: "a \<le> b \<and> b \<le> length c \<longrightarrow>
            py_slice c (Some (int a)) (Some (int b)) = map (\<lambda>i. c ! i) [a ..< b]"
    using py_slice_nat by blast
  have 6: "xs \<noteq> [] \<longrightarrow>
            np_average xs = Some (sum_list xs / real (length xs)) \<and>
            np_std xs = Some (sqrt ((\<Sum>v\<leftarrow>xs. (v - sum_list xs / real (length xs))\<^sup>2) / real (length xs)))"
    using np_average_std by blast
  have s0: "py_slice [0, 1, 2, 3, 4, 5 :: real] (Some 1) (Some 4) = [1, 2, 3]"
    by (simp add: py_slice_def slice_bound_def)
  have s1: "py_slice [1, 2, 3, 4, 5, 6 :: real] (Some 1) (Some 4) = [2, 3, 4]"
    by (simp add: py_slice_def slice_bound_def)
  have a0: "np_average [1, 2, 3] = Some 2" "np_average [2, 3, 4] = Some 3"
    by (simp_all add: np_average_def)
  have d0: "np_std [1, 2, 3] = Some (sqrt (2 / 3))" "np_std [2, 3, 4] = Some (sqrt (2 / 3))"
    unfolding np_std_def a0 by (simp_all add: power2_eq_square)
  have 7: "calc_average ramp_dataset (Some 1) (Some 4) =
           Inr ([''t'', ''y''], [Some 2, Some 3], [Some (sqrt (2 / 3)), Some (sqrt (2 / 3))])"
    by (simp add: calc_average_def ramp_dataset_def s0 s1 a0 d0)
  from 1 2 3 py_slice_all[of c] py_slice_one_sided[of c] 5 6 7 show ?thesis by (intro conjI)
qed

theorem calc_average_range_witness:
  "calc_average ramp_dataset (Some 4) (Some 1) = Inl StartNotBeforeEnd \<and>
   calc_average ramp_dataset (Some 1) (Some 6) = Inl IndexNotBelowRows \<and>
   calc_average ramp_dataset None None =
     Inr ([''t'', ''y''], [Some (5 / 2), Some (7 / 2)],
          [np_std [0, 1, 2, 3, 4, 5], np_std [1, 2, 3, 4, 5, 6]]) \<and>
   py_slice [1, 2, 3, 4, 5, 6 :: real] (Some (int 1)) (Some (int 4)) = [2, 3, 4]"
proof -
  note t = calc_average_range[of ramp_dataset "Some 4" "Some 1" "[1, 2, 3, 4, 5, 6]" 1 4 "[2, 3, 4]"]
  have 1: "calc_average ramp_dataset (Some 4) (Some 1) = Inl StartNotBeforeEnd"
    by (simp add: calc_average_def)
  have 2: "calc_average ramp_dataset (Some 1) (Some 6) = Inl IndexNotBelowRows"
    by (simp add: calc_average_def ramp_dataset_def)
  have 3: "calc_average ramp_dataset None None =
     Inr ([''t'', ''y''], [Some (5 / 2), Some (7 / 2)],
          [np_std [0, 1, 2, 3, 4, 5], np_std [1, 2, 3, 4, 5, 6]])"
    by (simp add: calc_average_def ramp_dataset_def py_slice_def np_average_def)
  have u: "[1 ..< 4] = [1, 2, 3 :: nat]" by (simp add: upt_rec)
  from t have "(1 :: nat) \<le> 4 \<and> 4 \<le> length [1, 2, 3, 4, 5, 6 :: real] \<longrightarrow>
      py_slice [1, 2, 3, 4, 5, 6 :: real] (Some (int 1)) (Some (int 4))
        = map (\<lambda>i. [1, 2, 3, 4, 5, 6 :: real] ! i) [1 ..< 4]"
    by (elim conjE)
  then have 4: "py_slice [1, 2, 3, 4, 5, 6 :: real] (Some (int 1)) (Some (int 4)) = [2, 3, 4]"
    unfolding u by simp
  from 1 2 3 4 show ?thesis by (intro conjI)
qed

text \<open>
  C2 (as amended). With a window of 2 and the column 1, ..., 6 (six rows), the three
  result lists of the column have length 6 and start with two \<^verbatim>\<open>nan\<close>; the entry at
  index 2 is the mean of the window of the rows 0 and 1, that is of 1 and 2, which is 1.5,
  with the standard deviation 0.5, and the bounds at index 2 are those of the interval for
  the mean 1.5 and the deviation 0.5: for an interval of the shape mean minus and plus
  \<open>z\<close> times the deviation, \<open>1.5 - z / 2\<close> and \<open>1.5 + z / 2\<close>, symmetric about 1.5.
\<close>

theorem moving_average_of_ramp:
  assumes "0 < confidence" "confidence < 1" "xvg_row_num x = 6"
    and "k < length (data_columns x)" "data_columns x ! k = [1, 2, 3, 4, 5, 6]"
  shows "\<exists>mv hi lo.
           calc_mvave interval x 2 confidence = Inr (data_heads x, mv, hi, lo) \<and>
           length (mv ! k) = 6 \<and> length (hi ! k) = 6 \<and> length (lo ! k) = 6 \<and>
           take 2 (mv ! k) = [None, None] \<and> take 2 (hi ! k) = [None, None] \<and>
           take 2 (lo ! k) = [None, None] \<and>
           mv ! k ! 2 = np_average [1, 2] \<and> np_average [1, 2] = Some (3 / 2) \<and>
           np_std [1, 2] = Some (1 / 2) \<and>
           lo ! k ! 2 = fst (interval confidence (Some (3 / 2)) (Some (1 / 2))) \<and>
           hi ! k ! 2 = snd (interval confidence (Some (3 / 2)) (Some (1 / 2))) \<and>
           ((\<forall>m s. interval confidence (Some m) (Some s) = (Some (m - z * s), Some (m + z * s)))
              \<longrightarrow> lo ! k ! 2 = Some (3 / 2 - z / 2) \<and> hi ! k ! 2 = Some (3 / 2 + z / 2))"
proof -
  define column :: "real list" where "column = [1, 2, 3, 4, 5, 6]"
  define r where "r = mvave_column interval 2 confidence 6 column"
  define rs where "rs = map (mvave_column interval (nat 2) confidence (xvg_row_num x)) (data_columns x)"
  have c: "calc_mvave interval x 2 confidence =
      Inr (data_heads x, map fst rs, map (fst \<circ> snd) rs, map (snd \<circ> snd) rs)"
    using assms(1,2,3) by (simp add: calc_mvave_def rs_def Let_def)
  have rk: "rs ! k = r"
    using assms(3,4,5) by (simp add: rs_def r_def column_def)
  have k: "k < length rs" using assms(4) by (simp add: rs_def)
  have u: "[2 ..< 6] = [2, 3, 4, 5 :: nat]" by (simp add: upt_rec)
  have w: "py_slice column (Some (int 2 - int 2)) (Some (int 2)) = [1, 2]"
    unfolding column_def by (rule ramp_window)
  have mv: "fst r = [None, None] @
      map (\<lambda>i. np_average (py_slice column (Some (int i - int 2)) (Some (int i)))) [2, 3, 4, 5]"
    unfolding r_def mvave_column_eq u by (simp add: numeral_2_eq_2)
  have hi: "fst (snd r) = [None, None] @
      map (\<lambda>i. snd (interval confidence
                        (np_average (py_slice column (Some (int i - int 2)) (Some (int i))))
                        (np_std (py_slice column (Some (int i - int 2)) (Some (int i))))))
          [2, 3, 4, 5]"
    unfolding r_def mvave_column_eq u by (simp add: numeral_2_eq_2)
  have lo: "snd (snd r) = [None, None] @
      map (\<lambda>i. fst (interval confidence
                        (np_average (py_slice column (Some (int i - int 2)) (Some (int i))))
                        (np_std (py_slice column (Some (int i - int 2)) (Some (int i))))))
          [2, 3, 4, 5]"
    unfolding r_def mvave_column_eq u by (simp add: numeral_2_eq_2)
  have mv2: "fst r ! 2 = np_average [1, 2]"
    unfolding mv using w by (simp add: numeral_2_eq_2)
  have hi2: "fst (snd r) ! 2 = snd (interval confidence (Some (3 / 2)) (Some (1 / 2)))"
    unfolding hi using w by (simp add: numeral_2_eq_2 ramp_window_stats)
  have lo2: "snd (snd r) ! 2 = fst (interval confidence (Some (3 / 2)) (Some (1 / 2)))"
    unfolding lo using w by (simp add: numeral_2_eq_2 ramp_window_stats)
  have sym: "snd (snd r) ! 2 = Some (3 / 2 - z / 2) \<and> fst (snd r) ! 2 = Some (3 / 2 + z / 2)"
    if "\<forall>m s. interval confidence (Some m) (Some s) = (Some (m - z * s), Some (m + z * s))"
    unfolding hi2 lo2 using that by simp
  have n: "map fst rs ! k = fst r" "map (fst \<circ> snd) rs ! k = fst (snd r)"
    "map (snd \<circ> snd) rs ! k = snd (snd r)"
    using k rk by simp_all
  have "length (map fst rs ! k) = 6 \<and> length (map (fst \<circ> snd) rs ! k) = 6 \<and>
      length (map (snd \<circ> snd) rs ! k) = 6 \<and>
      take 2 (map fst rs ! k) = [None, None] \<and> take 2 (map (fst \<circ> snd) rs ! k) = [None, None] \<and>
      take 2 (map (snd \<circ> snd) rs ! k) = [None, None] \<and>
      map fst rs ! k ! 2 = np_average [1, 2] \<and> np_average [1, 2] = Some (3 / 2) \<and>
      np_std [1, 2] = Some (1 / 2) \<and>
      map (snd \<circ> snd) rs ! k ! 2 = fst (interval confidence (Some (3 / 2)) (Some (1 / 2))) \<and>
      map (fst \<circ> snd) rs ! k ! 2 = snd (interval confidence (Some (3 / 2)) (Some (1 / 2))) \<and>
      ((\<forall>m s. interval confidence (Some m) (Some s) = (Some (m - z * s), Some (m + z * s)))
         \<longrightarrow> map (snd \<circ> snd) rs ! k ! 2 = Some (3 / 2 - z / 2) \<and>
             map (fst \<circ> snd) rs ! k ! 2 = Some (3 / 2 + z / 2))"
    unfolding n using mv2 hi2 lo2 sym ramp_window_stats
    by (simp add: mv hi lo)
  with c show ?thesis by blast
qed

lemma two_sigma_Some: "two_sigma confidence (Some m) (Some s) = (Some (m - 2 * s), Some (m + 2 * s))"
  by (simp add: two_sigma_def)

theorem moving_average_of_ramp_witness:
  "\<exists>mv hi lo.
     calc_mvave two_sigma ramp_dataset 2 (95 / 100) = Inr (data_heads ramp_dataset, mv, hi, lo) \<and>
     length (mv ! 1) = 6 \<and> take 2 (mv ! 1) = [None, None] \<and> mv ! 1 ! 2 = Some (3 / 2) \<and>
     lo ! 1 ! 2 = Some (1 / 2) \<and> hi ! 1 ! 2 = Some (5 / 2)"
proof -
  have a: "(0 :: real) < 95 / 100" "(95 / 100 :: real) < 1" "xvg_row_num ramp_dataset = 6"
    "1 < length (data_columns ramp_dataset)" "data_columns ramp_dataset ! 1 = [1, 2, 3, 4, 5, 6]"
    by (simp_all add: ramp_dataset_def)
  from moving_average_of_ramp[OF a, of two_sigma 2] obtain mv hi lo where
    r: "calc_mvave two_sigma ramp_dataset 2 (95 / 100) = Inr (data_heads ramp_dataset, mv, hi, lo)"
    "length (mv ! 1) = 6" "take 2 (mv ! 1) = [None, None]"
    "mv ! 1 ! 2 = np_average [1, 2]" "np_average [1, 2] = Some (3 / 2)"
    "(\<forall>m s. two_sigma (95 / 100) (Some m) (Some s) = (Some (m - 2 * s), Some (m + 2 * s)))
       \<longrightarrow> lo ! 1 ! 2 = Some (3 / 2 - 2 / 2) \<and> hi ! 1 ! 2 = Some (3 / 2 + 2 / 2)"
    by blast
  from r(6) have "lo ! 1 ! 2 = Some (1 / 2) \<and> hi ! 1 ! 2 = Some (5 / 2)"
    by (simp add: two_sigma_Some)
  with r(1,2,3,4,5) show ?thesis by auto
qed

text \<open>
  On the column 1, ..., 6 with a window of 2 the moving averages are
  \<^verbatim>\<open>nan\<close>, \<^verbatim>\<open>nan\<close>, 1.5, 2.5, 3.5, 4.5: the entry at index 2 is 1.5, not 2.5 (the mean
  of 2 and 3, which is the entry at index 3).
\<close>

theorem moving_average_index_2_counterexample:
  "fst (mvave_column two_sigma 2 (95 / 100) 6 [1, 2, 3, 4, 5, 6])
     = [None, None, Some (3 / 2), Some (5 / 2), Some (7 / 2), Some (9 / 2)] \<and>
   fst (mvave_column two_sigma 2 (95 / 100) 6 [1, 2, 3, 4, 5, 6]) ! 2 \<noteq> Some (5 / 2) \<and>
   calc_mvave two_sigma ramp_dataset 2 (95 / 100) =
     Inr ([''t'', ''y''],
          map (\<lambda>c. fst (mvave_column two_sigma 2 (95 / 100) 6 c)) [[0, 1, 2, 3, 4, 5], [1, 2, 3, 4, 5, 6]],
          map (\<lambda>c. fst (snd (mvave_column two_sigma 2 (95 / 100) 6 c))) [[0, 1, 2, 3, 4, 5], [1, 2, 3, 4, 5, 6]],
          map (\<lambda>c. snd (snd (mvave_column two_sigma 2 (95 / 100) 6 c))) [[0, 1, 2, 3, 4, 5], [1, 2, 3, 4, 5, 6]])"
proof -
  have u: "[2 ..< 6] = [2, 3, 4, 5 :: nat]" by (simp add: upt_rec)
  have 1: "fst (mvave_column two_sigma 2 (95 / 100) 6 [1, 2, 3, 4, 5, 6])
     = [None, None, Some (3 / 2), Some (5 / 2), Some (7 / 2), Some (9 / 2)]"
    unfolding mvave_column_eq u
    by (simp add: numeral_2_eq_2 py_slice_def slice_bound_def np_average_def)
  have 2: "fst (mvave_column two_sigma 2 (95 / 100) 6 [1, 2, 3, 4, 5, 6]) ! 2 \<noteq> Some (5 / 2)"
    unfolding 1 by simp
  have 3: "calc_mvave two_sigma ramp_dataset 2 (95 / 100) =
     Inr ([''t'', ''y''],
          map (\<lambda>c. fst (mvave_column two_sigma 2 (95 / 100) 6 c)) [[0, 1, 2, 3, 4, 5], [1, 2, 3, 4, 5, 6]],
          map (\<lambda>c. fst (snd (mvave_column two_sigma 2 (95 / 100) 6 c))) [[0, 1, 2, 3, 4, 5], [1, 2, 3, 4, 5, 6]],
          map (\<lambda>c. snd (snd (mvave_column two_sigma 2 (95 / 100) 6 c))) [[0, 1, 2, 3, 4, 5], [1, 2, 3, 4, 5, 6]])"
    by (simp add: calc_mvave_def ramp_dataset_def Let_def)
  from 1 2 3 show ?thesis by (intro conjI)
qed

lemma distribution_constant:
  assumes "column \<noteq> []" "\<forall>v \<in> set column. v = c" "bin \<noteq> 0"
  shows "distribution column bin row_num = Inr ([c], [1])"
proof -
  have s: "set column = {c}" using assms(1,2) by (cases column) auto
  have "np_min column = c" "np_max column = c"
    using assms(1) by (simp_all add: np_min_Min np_max_Max s)
  then show ?thesis using assms(1,3) by (simp add: distribution_def)
qed

text \<open>
  C3. On the constant column 5, 5, 5, 5 the distribution is the one bucket at 5 with the
  frequency 1. The other branch reports frequencies as percentages: on 5, 5, 5, 6 with one
  bin, where the one bucket also holds every value, its frequency is 100.
\<close>

theorem constant_column_frequency:
  "distribution [5, 5, 5, 5] 100 4 = Inr ([5], [1]) \<and>
   distribution [5, 5, 5, 6] 1 4 = Inr ([5], [100])"
proof -
  have 1: "distribution [5, 5, 5, 5] 100 4 = Inr ([5], [1])"
    by (rule distribution_constant) simp_all
  have m: "np_min [5, 5, 5, 6] = 5" "np_max [5, 5, 5, 6] = 6"
    by (simp_all add: np_min_def np_max_def)
  have c: "count_values 5 1 1 [5, 5, 5, 6] [0] = Inr [4]"
    by (simp add: py_int_def list_incr_def)
  have 2: "distribution [5, 5, 5, 6] 1 4 = Inr ([5], [100])"
    by (simp add: distribution_def m c del: count_values.simps)
  from 1 2 show ?thesis by (intro conjI)
qed

end
